theory Spec2Isabelle
  imports Complex_Main "HOL-Library.Monad_Syntax"
begin

section \<open>Elevation profile of a flight route (profilewidget.cpp)\<close>

text \<open>
  The values of the C++ type \<^verbatim>\<open>float\<close> are modelled by \<^typ>\<open>real\<close>; infinities and NaN
  have no value in the model, so a run in which a float operation overflows or divides by
  zero is outside it, and the theorems whose statement depends on such a quotient say so.
  The arithmetic on floats rounds. In updateScreenCoords and mouseMoveEvent every
  arithmetic operation on floats is taken from a parameter of the model, a record of the
  operations, so that what is proved of these two functions holds whatever the rounding
  is; the record \<open>ieee32\<close> below is IEEE single precision, rounded to nearest, and the
  examples are evaluated with it. In fetchRouteElevationsThread the one arithmetic
  operation on floats that the source performs itself is the addition to the running
  total of the distance, modelled by the addition of real numbers. C++ \<^verbatim>\<open>int\<close> is
  modelled by \<^typ>\<open>int\<close> and by \<^typ>\<open>nat\<close> for loop indices, without wrap-around.
\<close>

subsection \<open>Data model\<close>

text \<open>\<^verbatim>\<open>atools::geo::Pos\<close>: longitude, latitude (degrees) and altitude (feet).\<close>

record Pos =
  lonX :: real
  latY :: real
  altitude :: real

text \<open>\<^verbatim>\<open>Marble::GeoDataCoordinates\<close>, as built and read in degrees; altitude in metres.\<close>

record GeoDataCoordinates =
  longitude :: real
  latitude :: real
  coordAltitude :: real

text \<open>\<^verbatim>\<open>RouteMapObject\<close>: only the members the profile reads.\<close>

record RouteMapObject =
  ident :: string
  position :: Pos

record ElevationLeg =
  elevation :: "Pos list"
  distances :: "real list"
  maxElevation :: real

record ElevationLegList =
  routeMapObjects :: "RouteMapObject list"
  elevationLegs :: "ElevationLeg list"
  maxRouteElevation :: real
  totalDistance :: real
  totalNumPoints :: int

text \<open>
  The collaborators of the widget that are not part of this repository are parameters:
  Marble's elevation model (\<^verbatim>\<open>heightProfile\<close>) and the atools geometry library
  (\<^verbatim>\<open>meterToFeet\<close>, \<^verbatim>\<open>meterToNm\<close>, \<^verbatim>\<open>Pos::distanceMeterTo\<close>, \<^verbatim>\<open>Pos::isValid\<close>,
  \<^verbatim>\<open>Pos::interpolate\<close> and the default-constructed \<^verbatim>\<open>Pos()\<close>).
\<close>

record Collaborators =
  heightProfile :: "real \<Rightarrow> real \<Rightarrow> real \<Rightarrow> real \<Rightarrow> GeoDataCoordinates list"
  meterToFeet :: "real \<Rightarrow> real"
  meterToNm :: "real \<Rightarrow> real"
  distanceMeterTo :: "Pos \<Rightarrow> Pos \<Rightarrow> real"
  isValid :: "Pos \<Rightarrow> bool"
  interpolate :: "Pos \<Rightarrow> Pos \<Rightarrow> real \<Rightarrow> Pos"
  emptyPos :: Pos

text \<open>
  Modelled from the spec: \<^verbatim>\<open>atools::geo::almostEqual\<close> is not in the sources. The spec
  describes it as "differs by less than a fixed tolerance (absolute difference)".
\<close>

definition almostEqual :: "real \<Rightarrow> real \<Rightarrow> real \<Rightarrow> bool" where
  "almostEqual f1 f2 epsilon \<longleftrightarrow> \<bar>f1 - f2\<bar> < epsilon"

text \<open>
  Modelled from the spec: the header profilewidget.h is not in the sources. A
  default-constructed \<^verbatim>\<open>ElevationLeg\<close> has empty sequences; its \<^verbatim>\<open>maxElevation\<close> starts
  at 0, as the route-wide maximum does in the source and as the spec's invariant
  "maxRouteElevation = max over all legs' maxElevation" needs.
\<close>

definition emptyLeg :: ElevationLeg where
  "emptyLeg = \<lparr>elevation = [], distances = [], maxElevation = 0\<rparr>"

text \<open>\<^verbatim>\<open>ElevationLegList()\<close>, the value returned when a sample-level check sees the flag.\<close>

definition emptyLegList :: ElevationLegList where
  "emptyLegList = \<lparr>routeMapObjects = [], elevationLegs = [], maxRouteElevation = 0,
     totalDistance = 0, totalNumPoints = 0\<rparr>"

subsection \<open>fetchRouteElevationsThread\<close>

text \<open>
  The flag \<^verbatim>\<open>terminate\<close> is written by another thread. A run sees it as the sequence of
  values its successive reads return: \<open>flag k\<close> is what the \<open>k\<close>-th read returns. The
  state of a run carries the number of reads made so far.
\<close>

record BuildState =
  legs :: ElevationLegList
  leg :: ElevationLeg
  lastPos :: Pos
  polls :: nat

text \<open>The position built from one terrain sample (lines 392-393).\<close>

definition samplePos :: "Collaborators \<Rightarrow> GeoDataCoordinates \<Rightarrow> Pos" where
  "samplePos env coord =
     \<lparr>lonX = longitude coord, latY = latitude coord,
      altitude = meterToFeet env (coordAltitude coord)\<rparr>"

text \<open>The condition of the \<^verbatim>\<open>continue\<close> (lines 396-397); \<open>n\<close> is \<^verbatim>\<open>elev.size()\<close>.\<close>

definition dropSample :: "Collaborators \<Rightarrow> nat \<Rightarrow> nat \<Rightarrow> BuildState \<Rightarrow> Pos \<Rightarrow> bool" where
  "dropSample env n j st pos \<longleftrightarrow>
     isValid env (lastPos st) \<and> j \<noteq> 0 \<and> int j \<noteq> int n - 1 \<and>
     length (elevationLegs (legs st)) > 2 \<and>
     almostEqual (altitude pos) (altitude (lastPos st)) 10"

text \<open>The rest of the loop body for a sample that is kept (lines 400-415).\<close>

definition keepSample :: "Collaborators \<Rightarrow> nat \<Rightarrow> BuildState \<Rightarrow> Pos \<Rightarrow> BuildState" where
  "keepSample env j st pos =
     (let alt = altitude pos;
          lg = leg st;
          lg1 = (if alt > maxElevation lg then lg\<lparr>maxElevation := alt\<rparr> else lg);
          ls = legs st;
          ls1 = (if alt > maxRouteElevation ls then ls\<lparr>maxRouteElevation := alt\<rparr> else ls);
          lg2 = lg1\<lparr>elevation := elevation lg1 @ [pos]\<rparr>;
          ls2 = (if j > 0
                 then ls1\<lparr>totalDistance := totalDistance ls1 +
                        meterToNm env (distanceMeterTo env (lastPos st) pos)\<rparr>
                 else ls1);
          lg3 = lg2\<lparr>distances := distances lg2 @ [totalDistance ls2]\<rparr>;
          ls3 = ls2\<lparr>totalNumPoints := totalNumPoints ls2 + 1\<rparr>
      in st\<lparr>legs := ls3, leg := lg3, lastPos := pos\<rparr>)"

text \<open>
  The loop over the samples of one segment (lines 386-416). \<open>Inl\<close> is the early
  \<^verbatim>\<open>return ElevationLegList()\<close>; \<open>Inr\<close> is the state at the end of the loop.
\<close>

fun sampleLoop :: "Collaborators \<Rightarrow> (nat \<Rightarrow> bool) \<Rightarrow> nat \<Rightarrow> nat \<Rightarrow> GeoDataCoordinates list \<Rightarrow>
    BuildState \<Rightarrow> ElevationLegList + BuildState" where
  "sampleLoop env flag n j [] st = Inr st"
| "sampleLoop env flag n j (coord # rest) st =
     (if flag (polls st) then Inl emptyLegList
      else
        let st1 = st\<lparr>polls := Suc (polls st)\<rparr>;
            pos = samplePos env coord
        in if dropSample env n j st1 pos then sampleLoop env flag n (Suc j) rest st1
           else sampleLoop env flag n (Suc j) rest (keepSample env j st1 pos))"

text \<open>
  The samples of the segment between two route objects (lines 371-382): what the
  elevation model returns or, when that is empty, the two end points at altitude 0.
\<close>

definition legSamples :: "Collaborators \<Rightarrow> RouteMapObject \<Rightarrow> RouteMapObject \<Rightarrow>
    GeoDataCoordinates list" where
  "legSamples env lastRmo rmo =
     (let elev = heightProfile env (lonX (position lastRmo)) (latY (position lastRmo))
                   (lonX (position rmo)) (latY (position rmo))
      in if elev = []
         then [\<lparr>longitude = lonX (position lastRmo), latitude = latY (position lastRmo),
                 coordAltitude = 0\<rparr>,
               \<lparr>longitude = lonX (position rmo), latitude = latY (position rmo),
                 coordAltitude = 0\<rparr>]
         else elev)"

text \<open>
  The loop over the route objects (lines 363-418), from index \<open>i\<close>. The first check of the
  flag returns \<^verbatim>\<open>legs\<close> as it is then.
\<close>

function legLoop :: "Collaborators \<Rightarrow> (nat \<Rightarrow> bool) \<Rightarrow> nat \<Rightarrow> ElevationLegList \<Rightarrow> nat \<Rightarrow>
    ElevationLegList" where
  "legLoop env flag i ls k =
     (if i < length (routeMapObjects ls)
      then if flag k then ls
           else
             let lastRmo = routeMapObjects ls ! (i - 1);
                 rmo = routeMapObjects ls ! i;
                 elev = legSamples env lastRmo rmo
             in case sampleLoop env flag (length elev) 0 elev
                       \<lparr>legs = ls, leg = emptyLeg, lastPos = emptyPos env, polls = Suc k\<rparr> of
                  Inl r \<Rightarrow> r
                | Inr st \<Rightarrow>
                    legLoop env flag (Suc i)
                      ((legs st)\<lparr>elevationLegs := elevationLegs (legs st) @ [leg st]\<rparr>)
                      (polls st)
      else ls)"
  by pat_completeness auto
termination
proof (relation "measure (\<lambda>(env, flag, i, ls, k). length (routeMapObjects ls) - i)")
  show "wf (measure (\<lambda>(env, flag, i, ls, k). length (routeMapObjects ls) - i))"
    by simp
next
  fix env :: Collaborators and flag :: "nat \<Rightarrow> bool" and i :: nat
    and ls :: ElevationLegList and k :: nat
    and x xa xb and st :: BuildState
  assume lt: "i < length (routeMapObjects ls)"
    and run: "sampleLoop env flag (length xb) 0 xb
        \<lparr>legs = ls, leg = emptyLeg, lastPos = emptyPos env, polls = Suc k\<rparr> = Inr st"
  have keeps: "sampleLoop env flag n j cs s = Inr s' \<Longrightarrow>
      routeMapObjects (legs s') = routeMapObjects (legs s)" for n j cs s s'
    by (induction cs arbitrary: j s)
       (auto simp: Let_def keepSample_def split: if_splits)
  from keeps [OF run]
  have "routeMapObjects (legs st) = routeMapObjects ls" by simp
  with lt show "((env, flag, Suc i,
      (legs st)\<lparr>elevationLegs := elevationLegs (legs st) @ [leg st]\<rparr>, polls st),
      (env, flag, i, ls, k)) \<in> measure (\<lambda>(env, flag, i, ls, k). length (routeMapObjects ls) - i)"
    by simp
qed

declare legLoop.simps [simp del]

text \<open>The whole function: the route objects are copied into \<^verbatim>\<open>legs\<close> first (lines 354-361).\<close>

definition fetchRouteElevationsThread :: "Collaborators \<Rightarrow> (nat \<Rightarrow> bool) \<Rightarrow>
    RouteMapObject list \<Rightarrow> ElevationLegList" where
  "fetchRouteElevationsThread env flag rmos =
     legLoop env flag 1
       \<lparr>routeMapObjects = rmos, elevationLegs = [], maxRouteElevation = 0,
        totalDistance = 0, totalNumPoints = 0\<rparr> 0"

subsection \<open>updateScreenCoords\<close>

definition X0 :: int where
  "X0 = 65"

definition Y0 :: int where
  "Y0 = 14"

text \<open>\<^verbatim>\<open>QPoint\<close> with the three operations the function uses.\<close>

type_synonym QPoint = "int \<times> int"

definition isNull :: "QPoint \<Rightarrow> bool" where
  "isNull p \<longleftrightarrow> fst p = 0 \<and> snd p = 0"

definition pointDiff :: "QPoint \<Rightarrow> QPoint \<Rightarrow> QPoint" where
  "pointDiff p q = (fst p - fst q, snd p - snd q)"

definition manhattanLength :: "QPoint \<Rightarrow> int" where
  "manhattanLength p = \<bar>fst p\<bar> + \<bar>snd p\<bar>"

text \<open>\<^verbatim>\<open>static_cast<int>\<close> of a float: truncation towards zero.\<close>

definition toInt :: "real \<Rightarrow> int" where
  "toInt r = (if 0 \<le> r then \<lfloor>r\<rfloor> else \<lceil>r\<rceil>)"

text \<open>
  The members of the widget that the projection and the mouse query read or write. The
  first seven are inputs: the widget's rectangle, the profile, the flight plan's cruise
  altitude, the simulator's aircraft position, whether the map shows the aircraft, and
  whether the flight plan is empty.
\<close>

record ProfileWidget =
  rectWidth :: int
  rectHeight :: int
  legList :: ElevationLegList
  cruisingAlt :: int
  simPosition :: Pos
  aircraftShown :: bool
  flightplanEmpty :: bool
  maxRouteElevationFt :: real
  flightplanAltFt :: real
  maxHeight :: real
  vertScale :: real
  horizScale :: real
  waypointX :: "int list"
  poly :: "QPoint list"

text \<open>
  The arithmetic operations on floats that the two functions use: addition, subtraction,
  multiplication, division, and the conversion of an \<^verbatim>\<open>int\<close> to \<^verbatim>\<open>float\<close>.
  Comparisons, \<^verbatim>\<open>std::max\<close>, \<^verbatim>\<open>std::abs\<close> and \<^verbatim>\<open>std::ceil\<close> are exact on floats and are not
  part of the record.
\<close>

record FloatArith =
  fadd :: "real \<Rightarrow> real \<Rightarrow> real"
  fsub :: "real \<Rightarrow> real \<Rightarrow> real"
  fmul :: "real \<Rightarrow> real \<Rightarrow> real"
  fdiv :: "real \<Rightarrow> real \<Rightarrow> real"
  ofInt :: "int \<Rightarrow> real"

text \<open>
  IEEE single precision: a result is rounded to the nearest number with 24 significant
  bits, a tie to the one whose last bit is even. \<open>exponent x\<close> is the integer \<open>e\<close> with
  \<open>2 ^ e \<le> |x| < 2 ^ (e + 1)\<close>; below \<open>2 ^ (- 126)\<close> the spacing stays that of the
  subnormal numbers.
\<close>

fun log2floor :: "nat \<Rightarrow> nat" where
  "log2floor n = (if n < 2 then 0 else Suc (log2floor (n div 2)))"

declare log2floor.simps [simp del]

definition exponent :: "real \<Rightarrow> int" where
  "exponent x =
     (if 1 \<le> \<bar>x\<bar> then int (log2floor (nat \<lfloor>\<bar>x\<bar>\<rfloor>))
      else - int (let m = nat \<lceil>1 / \<bar>x\<bar>\<rceil> in if m \<le> 1 then 0 else Suc (log2floor (m - 1))))"

definition roundEven :: "real \<Rightarrow> int" where
  "roundEven x =
     (let f = \<lfloor>x\<rfloor>; d = x - real_of_int f
      in if d < 1 / 2 then f else if 1 / 2 < d then f + 1 else if even f then f else f + 1)"

definition float32 :: "real \<Rightarrow> real" where
  "float32 x =
     (if x = 0 then 0
      else let e = max (exponent x) (- 126); u = 2 powi (e - 23)
           in real_of_int (roundEven (x / u)) * u)"

definition ieee32 :: FloatArith where
  "ieee32 = \<lparr>fadd = (\<lambda>a b. float32 (a + b)), fsub = (\<lambda>a b. float32 (a - b)),
     fmul = (\<lambda>a b. float32 (a * b)), fdiv = (\<lambda>a b. float32 (a / b)),
     ofInt = (\<lambda>n. float32 (real_of_int n))\<rparr>"

text \<open>Line 138 (and line 538 for a single leg): add 1000 ft, round up to the next 500 ft.\<close>

definition roundedElevation :: "FloatArith \<Rightarrow> real \<Rightarrow> real" where
  "roundedElevation fl e = fmul fl (real_of_int \<lceil>fdiv fl (fadd fl e 1000) 500\<rceil>) 500"

text \<open>Lines 140-145: the altitude at the top of the drawing.\<close>

definition topAltitude :: "FloatArith \<Rightarrow> Collaborators \<Rightarrow> ProfileWidget \<Rightarrow> real" where
  "topAltitude fl env pw =
     (let mh = max (roundedElevation fl (maxRouteElevation (legList pw)))
                   (ofInt fl (cruisingAlt pw))
      in if isValid env (simPosition pw) \<and> aircraftShown pw \<and> \<not> flightplanEmpty pw
         then max mh (altitude (simPosition pw))
         else mh)"

text \<open>
  The loop over the samples of one leg (lines 159-170), from index \<open>i\<close>. \<open>None\<close> is a
  read of \<^verbatim>\<open>leg.distances.at(i)\<close> outside the vector.
\<close>

function projectLeg :: "FloatArith \<Rightarrow> real \<Rightarrow> real \<Rightarrow> int \<Rightarrow> ElevationLeg \<Rightarrow> nat \<Rightarrow> QPoint \<Rightarrow>
    QPoint list \<Rightarrow> (QPoint \<times> QPoint list) option" where
  "projectLeg fl hs vs h lg i lastPt pl =
     (if i < length (elevation lg)
      then if i < length (distances lg)
           then
             let alt = altitude (elevation lg ! i);
                 pt = (X0 + toInt (fmul fl (distances lg ! i) hs),
                       Y0 + toInt (fsub fl (ofInt fl h) (fmul fl alt vs)))
             in if isNull lastPt \<or> int i = int (length (elevation lg)) - 1 \<or>
                   manhattanLength (pointDiff lastPt pt) > 2
                then projectLeg fl hs vs h lg (Suc i) pt (pl @ [pt])
                else projectLeg fl hs vs h lg (Suc i) lastPt pl
           else None
      else Some (lastPt, pl))"
  by pat_completeness auto
termination
  by (relation "measure (\<lambda>(fl, hs, vs, h, lg, i, lastPt, pl). length (elevation lg) - i)") auto

declare projectLeg.simps [simp del]

text \<open>
  The loop over the legs (lines 154-171). \<open>None\<close> is \<^verbatim>\<open>leg.distances.first()\<close> on an empty
  vector, or a failed read in the inner loop. \<^verbatim>\<open>lastPt\<close> is declared inside the loop body,
  so every leg starts with the null point.
\<close>

fun projectLegs :: "FloatArith \<Rightarrow> real \<Rightarrow> real \<Rightarrow> int \<Rightarrow> ElevationLeg list \<Rightarrow> int list \<Rightarrow>
    QPoint list \<Rightarrow> (int list \<times> QPoint list) option" where
  "projectLegs fl hs vs h [] wpx pl = Some (wpx, pl)"
| "projectLegs fl hs vs h (lg # rest) wpx pl =
     (case distances lg of
        [] \<Rightarrow> None
      | d # _ \<Rightarrow>
          (case projectLeg fl hs vs h lg 0 (0, 0) pl of
             None \<Rightarrow> None
           | Some (lastPt, pl') \<Rightarrow>
               projectLegs fl hs vs h rest (wpx @ [X0 + toInt (fmul fl d hs)]) pl'))"

definition updateScreenCoords :: "FloatArith \<Rightarrow> Collaborators \<Rightarrow> ProfileWidget \<Rightarrow>
    ProfileWidget option" where
  "updateScreenCoords fl env pw =
     (let w = rectWidth pw - X0 * 2;
          h = rectHeight pw - Y0;
          mh = topAltitude fl env pw;
          vs = fdiv fl (ofInt fl h) mh;
          hs = fdiv fl (ofInt fl w) (totalDistance (legList pw))
      in case projectLegs fl hs vs h (elevationLegs (legList pw)) [] [(X0, h + Y0)] of
           None \<Rightarrow> None
         | Some (wpx, pl) \<Rightarrow>
             Some (pw\<lparr>maxRouteElevationFt :=
                         roundedElevation fl (maxRouteElevation (legList pw)),
                       flightplanAltFt := ofInt fl (cruisingAlt pw),
                       maxHeight := mh, vertScale := vs, horizScale := hs,
                       waypointX := wpx @ [X0 + w],
                       poly := pl @ [(X0 + w, h + Y0)]\<rparr>))"

text \<open>
  updateFinished (lines 454-467), for a visible widget: the result of the background run
  replaces the profile, and the projection follows, unless \<^verbatim>\<open>terminate\<close> is set.
\<close>

definition updateFinished :: "FloatArith \<Rightarrow> Collaborators \<Rightarrow> bool \<Rightarrow> ElevationLegList \<Rightarrow>
    ProfileWidget \<Rightarrow> ProfileWidget option" where
  "updateFinished fl env terminate result pw =
     (if \<not> terminate then updateScreenCoords fl env (pw\<lparr>legList := result\<rparr>) else Some pw)"

subsection \<open>mouseMoveEvent\<close>

text \<open>
  \<^verbatim>\<open>std::lower_bound\<close> and \<^verbatim>\<open>std::upper_bound\<close> on a sorted range, as positions: the number
  of elements before the first one that is not less than, respectively greater than, the
  value. The length of the range stands for \<^verbatim>\<open>end()\<close>.
\<close>

definition lower_bound :: "'a::linorder list \<Rightarrow> 'a \<Rightarrow> nat" where
  "lower_bound xs v = length (takeWhile (\<lambda>e. e < v) xs)"

definition upper_bound :: "'a::linorder list \<Rightarrow> 'a \<Rightarrow> nat" where
  "upper_bound xs v = length (takeWhile (\<lambda>e. \<not> v < e) xs)"

text \<open>
  \<^verbatim>\<open>QList::at\<close>, \<^verbatim>\<open>first\<close> and \<^verbatim>\<open>last\<close> need an index inside the list; \<open>None\<close> is a read
  outside it.
\<close>

definition at_list :: "'a list \<Rightarrow> int \<Rightarrow> 'a option" where
  "at_list xs i = (if 0 \<le> i \<and> i < int (length xs) then Some (xs ! nat i) else None)"

definition first :: "'a list \<Rightarrow> 'a option" where
  "first xs = (case xs of [] \<Rightarrow> None | x # _ \<Rightarrow> Some x)"

definition lastOf :: "'a list \<Rightarrow> 'a option" where
  "lastOf xs = (if xs = [] then None else Some (last xs))"

text \<open>What the event shows: the label's values and the highlighted position.\<close>

record ProfileInfo =
  fromIdent :: string
  toIdent :: string
  queryDistance :: real
  groundAltitude :: real
  aboveGroundAltitude :: real
  legSafeAltitude :: real
  highlightPos :: Pos

datatype QueryResult = NoResult | Answer ProfileInfo

text \<open>Lines 496-503 and 511-528: a position found by a search, or 0 at \<^verbatim>\<open>end()\<close>.\<close>

definition legIndex :: "int list \<Rightarrow> int \<Rightarrow> int" where
  "legIndex wpx x =
     (let it = lower_bound wpx x
      in if it \<noteq> length wpx
         then (let index = int it - 1 in if index < 0 then 0 else index)
         else 0)"

definition boundIndex :: "nat \<Rightarrow> nat \<Rightarrow> int" where
  "boundIndex it n =
     (if it \<noteq> n then (let index = int it in if index < 0 then 0 else index) else 0)"

text \<open>
  The event handler (lines 480-550) for a mouse position with x coordinate \<open>mx\<close>.
  \<open>Some NoResult\<close> is the early return; \<open>None\<close> is a read outside a container.
\<close>

definition mouseMoveEvent :: "FloatArith \<Rightarrow> Collaborators \<Rightarrow> ProfileWidget \<Rightarrow> int \<Rightarrow>
    QueryResult option" where
  "mouseMoveEvent fl env pw mx =
     (if elevationLegs (legList pw) = [] then Some NoResult
      else
        let x = min (max mx X0) (rectWidth pw - X0);
            index = legIndex (waypointX pw) x
        in do {
          lg \<leftarrow> at_list (elevationLegs (legList pw)) index;
          fromRmo \<leftarrow> at_list (routeMapObjects (legList pw)) index;
          toRmo \<leftarrow> at_list (routeMapObjects (legList pw)) (index + 1);
          let distance = fdiv fl (ofInt fl (x - X0)) (horizScale pw);
          let indexLowDist =
            boundIndex (lower_bound (distances lg) distance) (length (distances lg));
          let indexUpperDist =
            boundIndex (upper_bound (distances lg) distance) (length (distances lg));
          p1 \<leftarrow> at_list (elevation lg) indexLowDist;
          p2 \<leftarrow> at_list (elevation lg) indexUpperDist;
          let alt = fdiv fl \<bar>fadd fl (altitude p1) (altitude p2)\<bar> 2;
          d0 \<leftarrow> first (distances lg);
          dl \<leftarrow> lastOf (distances lg);
          e0 \<leftarrow> first (elevation lg);
          el \<leftarrow> lastOf (elevation lg);
          let legdistpart = fsub fl distance d0;
          let legdist = fsub fl dl d0;
          Some (Answer
            \<lparr>fromIdent = ident fromRmo, toIdent = ident toRmo, queryDistance = distance,
             groundAltitude = alt, aboveGroundAltitude = fsub fl (flightplanAltFt pw) alt,
             legSafeAltitude = roundedElevation fl (maxElevation lg),
             highlightPos = interpolate env e0 el (fdiv fl legdistpart legdist)\<rparr>)
        })"

section \<open>Notions used to state the properties\<close>

subsection \<open>Runs and the thinning rule\<close>

text \<open>A run that is not cancelled: no read of the flag returns true.\<close>

definition never :: "nat \<Rightarrow> bool" where
  "never = (\<lambda>k. False)"

text \<open>A run whose flag is set just before its \<open>m\<close>-th read and stays set.\<close>

definition cancelledFrom :: "nat \<Rightarrow> nat \<Rightarrow> bool" where
  "cancelledFrom m = (\<lambda>q. m \<le> q)"

text \<open>
  The thinning rule as a function on the positions of one segment, after the words of the
  specification: with \<open>n\<close> positions in the segment, position \<open>j\<close> is dropped if and only if
  it is neither the first nor the last one and it is \<open>similar\<close> to the position kept last;
  in every other case it is kept. \<open>kept\<close> holds the positions kept so far.
\<close>

fun thinSamples :: "(Pos \<Rightarrow> Pos \<Rightarrow> bool) \<Rightarrow> nat \<Rightarrow> nat \<Rightarrow> Pos list \<Rightarrow> Pos list \<Rightarrow> Pos list" where
  "thinSamples similar n j kept [] = kept"
| "thinSamples similar n j kept (p # ps) =
     (if j \<noteq> 0 \<and> Suc j \<noteq> n \<and> kept \<noteq> [] \<and> similar (last kept) p
      then thinSamples similar n (Suc j) kept ps
      else thinSamples similar n (Suc j) (kept @ [p]) ps)"

text \<open>
  Similarity as the specification words it, for a segment built when \<open>k\<close> legs are in the
  list: at least two legs, and altitudes less than 10 feet apart.
\<close>

definition claimedSimilar :: "nat \<Rightarrow> Pos \<Rightarrow> Pos \<Rightarrow> bool" where
  "claimedSimilar k lastKept p \<longleftrightarrow> 2 \<le> k \<and> \<bar>altitude p - altitude lastKept\<bar> < 10"

text \<open>
  Similarity as the source tests it: more than two legs, a valid position kept last, and
  altitudes less than 10 feet apart.
\<close>

definition similarAltitude :: "Collaborators \<Rightarrow> nat \<Rightarrow> Pos \<Rightarrow> Pos \<Rightarrow> bool" where
  "similarAltitude env k lastKept p \<longleftrightarrow>
     3 \<le> k \<and> isValid env lastKept \<and> \<bar>altitude p - altitude lastKept\<bar> < 10"

text \<open>The positions of the terrain samples of segment \<open>k\<close>, between route objects \<open>k\<close> and \<open>k + 1\<close>.\<close>

definition segmentPositions :: "Collaborators \<Rightarrow> RouteMapObject list \<Rightarrow> nat \<Rightarrow> Pos list" where
  "segmentPositions env rmos k =
     map (samplePos env) (legSamples env (rmos ! k) (rmos ! Suc k))"

subsection \<open>The invariant of the loop over the route objects\<close>

text \<open>The cumulative distance at the end of the legs built so far.\<close>

definition endDistance :: "ElevationLeg list \<Rightarrow> real" where
  "endDistance L = (if L = [] then 0 else last (distances (last L)))"

definition legBuilt :: "Collaborators \<Rightarrow> RouteMapObject list \<Rightarrow> ElevationLeg list \<Rightarrow> nat \<Rightarrow> bool" where
  "legBuilt env rmos L k \<longleftrightarrow>
     elevation (L ! k) =
       thinSamples (similarAltitude env k) (length (segmentPositions env rmos k)) 0 []
         (segmentPositions env rmos k) \<and>
     length (distances (L ! k)) = length (elevation (L ! k)) \<and>
     hd (distances (L ! k)) = endDistance (take k L) \<and>
     0 \<le> maxElevation (L ! k)"

definition profileInv :: "Collaborators \<Rightarrow> ElevationLegList \<Rightarrow> bool" where
  "profileInv env ls \<longleftrightarrow>
     (\<forall>k < length (elevationLegs ls). legBuilt env (routeMapObjects ls) (elevationLegs ls) k) \<and>
     totalDistance ls = endDistance (elevationLegs ls) \<and>
     maxRouteElevation ls = fold max (map maxElevation (elevationLegs ls)) 0"

subsection \<open>The polygon's thinning rule\<close>

text \<open>
  A list of legs that the projection can read: every leg has a first distance, and a
  distance for every position.
\<close>

definition legsReadable :: "ElevationLeg list \<Rightarrow> bool" where
  "legsReadable L \<longleftrightarrow>
     (\<forall>lg \<in> set L. distances lg \<noteq> [] \<and> length (elevation lg) \<le> length (distances lg))"

text \<open>The scales that updateScreenCoords computes for a widget (lines 147-148).\<close>

definition vertScaleOf :: "FloatArith \<Rightarrow> Collaborators \<Rightarrow> ProfileWidget \<Rightarrow> real" where
  "vertScaleOf fl env pw = fdiv fl (ofInt fl (rectHeight pw - Y0)) (topAltitude fl env pw)"

definition horizScaleOf :: "FloatArith \<Rightarrow> ProfileWidget \<Rightarrow> real" where
  "horizScaleOf fl pw = fdiv fl (ofInt fl (rectWidth pw - X0 * 2)) (totalDistance (legList pw))"

text \<open>The pixel positions of the samples of one leg, for given scales and drawing height.\<close>

definition legPoints :: "FloatArith \<Rightarrow> real \<Rightarrow> real \<Rightarrow> int \<Rightarrow> ElevationLeg \<Rightarrow> QPoint list" where
  "legPoints fl hs vs h lg =
     map (\<lambda>i. (X0 + toInt (fmul fl (distances lg ! i) hs),
               Y0 + toInt (fsub fl (ofInt fl h) (fmul fl (altitude (elevation lg ! i)) vs))))
       [0..<length (elevation lg)]"

text \<open>
  The rule for appending points as a function on the pixel positions of one leg: with \<open>n\<close>
  points in the leg, point \<open>i\<close> is appended if and only if no point has been appended
  before (\<open>la = None\<close>), or it is the last point of the leg, or it is \<open>far\<close> from the point
  appended last (\<open>la = Some l\<close>). The result is the list of points appended.
\<close>

fun thinPoints :: "(QPoint \<Rightarrow> QPoint \<Rightarrow> bool) \<Rightarrow> nat \<Rightarrow> nat \<Rightarrow> QPoint option \<Rightarrow> QPoint list \<Rightarrow>
    QPoint list" where
  "thinPoints far n i la [] = []"
| "thinPoints far n i la (pt # pts) =
     (if la = None \<or> Suc i = n \<or> (case la of None \<Rightarrow> False | Some l \<Rightarrow> far l pt)
      then pt # thinPoints far n (Suc i) (Some pt) pts
      else thinPoints far n (Suc i) la pts)"

text \<open>"Far" as the specification words it: more than 2 pixels of Manhattan distance.\<close>

definition claimedFar :: "QPoint \<Rightarrow> QPoint \<Rightarrow> bool" where
  "claimedFar l pt \<longleftrightarrow> manhattanLength (pointDiff l pt) > 2"

text \<open>"Far" as the source tests it: the point appended last is the null point, or more than
  2 pixels away.\<close>

definition farOrNull :: "QPoint \<Rightarrow> QPoint \<Rightarrow> bool" where
  "farOrNull l pt \<longleftrightarrow> isNull l \<or> manhattanLength (pointDiff l pt) > 2"

text \<open>
  The sample points of the polygon as the specification words it: the point appended last
  is carried from one leg to the next, so that only the first point overall is appended
  for being first.
\<close>

definition lastAppended :: "QPoint option \<Rightarrow> QPoint list \<Rightarrow> QPoint option" where
  "lastAppended la out = (if out = [] then la else Some (last out))"

fun claimedPolygon :: "QPoint option \<Rightarrow> QPoint list list \<Rightarrow> QPoint list" where
  "claimedPolygon la [] = []"
| "claimedPolygon la (pts # rest) =
     (let out = thinPoints claimedFar (length pts) 0 la pts
      in out @ claimedPolygon (lastAppended la out) rest)"

subsection \<open>Notions for the mouse query\<close>

text \<open>
  A widget whose projection belongs to its profile: one waypoint x coordinate per leg and
  one more, more route objects than legs, and in every leg at least one position and as
  many distances as positions. updateFinished establishes this for the result of a run
  that was not cancelled (lemma \<open>shown_consistent\<close>).
\<close>

definition consistentWidget :: "ProfileWidget \<Rightarrow> bool" where
  "consistentWidget pw \<longleftrightarrow>
     length (waypointX pw) = Suc (length (elevationLegs (legList pw))) \<and>
     length (elevationLegs (legList pw)) < length (routeMapObjects (legList pw)) \<and>
     (\<forall>lg \<in> set (elevationLegs (legList pw)).
        elevation lg \<noteq> [] \<and> length (distances lg) = length (elevation lg))"

text \<open>The x coordinate after lines 489-490, the leg that the query finds and the distance
  it asks for.\<close>

definition clampX :: "ProfileWidget \<Rightarrow> int \<Rightarrow> int" where
  "clampX pw mx = min (max mx X0) (rectWidth pw - X0)"

definition queriedLeg :: "ProfileWidget \<Rightarrow> int \<Rightarrow> ElevationLeg" where
  "queriedLeg pw mx =
     elevationLegs (legList pw) ! nat (legIndex (waypointX pw) (clampX pw mx))"

definition queriedDistance :: "FloatArith \<Rightarrow> ProfileWidget \<Rightarrow> int \<Rightarrow> real" where
  "queriedDistance fl pw mx = fdiv fl (ofInt fl (clampX pw mx - X0)) (horizScale pw)"

text \<open>The index the source reads for a search position \<open>it\<close> in a sequence of length \<open>n\<close>: the
  position itself, or 0 when the search ended at \<^verbatim>\<open>end()\<close>.\<close>

definition sampleOrFirst :: "nat \<Rightarrow> nat \<Rightarrow> nat" where
  "sampleOrFirst it n = (if it < n then it else 0)"

text \<open>
  The ground altitude as the specification words it: from the samples at the lower-bound
  and the upper-bound index; there is none when one of the two is not the index of a
  sample.
\<close>

definition claimedGroundAltitude :: "FloatArith \<Rightarrow> ElevationLeg \<Rightarrow> real \<Rightarrow> real option" where
  "claimedGroundAltitude fl lg d =
     (let lo = lower_bound (distances lg) d;
          up = upper_bound (distances lg) d
      in if lo < length (elevation lg) \<and> up < length (elevation lg)
         then Some (fdiv fl \<bar>fadd fl (altitude (elevation lg ! lo))
                               (altitude (elevation lg ! up))\<bar> 2)
         else None)"

subsection \<open>Example collaborators, routes and widgets\<close>

text \<open>
  An elevation model with no data west of the meridian and, elsewhere, three samples per
  segment (both ends and the middle) over terrain that rises by one metre every five
  degrees of longitude from 100 m at the meridian; three feet to the metre; distances
  measured in degrees; positions valid inside the usual coordinate ranges.
\<close>

definition exEnv :: Collaborators where
  "exEnv = \<lparr>heightProfile = (\<lambda>lon1 lat1 lon2 lat2.
       if lon1 < 0 then []
       else [\<lparr>longitude = lon1, latitude = lat1, coordAltitude = 100 + lon1 / 5\<rparr>,
             \<lparr>longitude = (lon1 + lon2) / 2, latitude = (lat1 + lat2) / 2,
              coordAltitude = 100 + (lon1 + lon2) / 10\<rparr>,
             \<lparr>longitude = lon2, latitude = lat2, coordAltitude = 100 + lon2 / 5\<rparr>]),
     meterToFeet = (\<lambda>m. 3 * m),
     meterToNm = (\<lambda>m. m),
     distanceMeterTo = (\<lambda>a b. \<bar>lonX a - lonX b\<bar> + \<bar>latY a - latY b\<bar>),
     isValid = (\<lambda>p. \<bar>lonX p\<bar> \<le> 180 \<and> \<bar>latY p\<bar> \<le> 90),
     interpolate = (\<lambda>a b f. \<lparr>lonX = lonX a + (lonX b - lonX a) * f,
        latY = latY a + (latY b - latY a) * f, altitude = altitude a\<rparr>),
     emptyPos = \<lparr>lonX = 1000, latY = 1000, altitude = 0\<rparr>\<rparr>"

definition wp :: "string \<Rightarrow> real \<Rightarrow> RouteMapObject" where
  "wp name lon = \<lparr>ident = name, position = \<lparr>lonX = lon, latY = 0, altitude = 0\<rparr>\<rparr>"

definition exRoute :: "RouteMapObject list" where
  "exRoute = [wp ''A'' 0, wp ''B'' 10, wp ''C'' 20, wp ''D'' 30, wp ''E'' 40]"

definition farRoute :: "RouteMapObject list" where
  "farRoute = [wp ''P'' 150, wp ''Q'' 160, wp ''R'' 170, wp ''S'' 180, wp ''T'' 190, wp ''U'' 200]"

definition westRoute :: "RouteMapObject list" where
  "westRoute = [wp ''W'' (- 10), wp ''A'' 0]"

text \<open>The profile of \<open>exRoute\<close>.\<close>

definition exProfile :: ElevationLegList where
  "exProfile = \<lparr>routeMapObjects = exRoute,
    elevationLegs =
      [\<lparr>elevation =
          [\<lparr>lonX = 0, latY = 0, altitude = 300\<rparr>,
           \<lparr>lonX = 5, latY = 0, altitude = 303\<rparr>,
           \<lparr>lonX = 10, latY = 0, altitude = 306\<rparr>],
          distances = [0, 5, 10], maxElevation = 306\<rparr>,
       \<lparr>elevation =
          [\<lparr>lonX = 10, latY = 0, altitude = 306\<rparr>,
           \<lparr>lonX = 15, latY = 0, altitude = 309\<rparr>,
           \<lparr>lonX = 20, latY = 0, altitude = 312\<rparr>],
          distances = [10, 15, 20], maxElevation = 312\<rparr>,
       \<lparr>elevation =
          [\<lparr>lonX = 20, latY = 0, altitude = 312\<rparr>,
           \<lparr>lonX = 25, latY = 0, altitude = 315\<rparr>,
           \<lparr>lonX = 30, latY = 0, altitude = 318\<rparr>],
          distances = [20, 25, 30], maxElevation = 318\<rparr>,
       \<lparr>elevation =
          [\<lparr>lonX = 30, latY = 0, altitude = 318\<rparr>,
           \<lparr>lonX = 40, latY = 0, altitude = 324\<rparr>],
          distances = [30, 40], maxElevation = 324\<rparr>],
    maxRouteElevation = 324, totalDistance = 40, totalNumPoints = 11\<rparr>"

text \<open>Flat terrain at sea level with three samples per segment.\<close>

definition flatEnv :: Collaborators where
  "flatEnv = exEnv\<lparr>heightProfile := (\<lambda>lon1 lat1 lon2 lat2.
       [\<lparr>longitude = lon1, latitude = lat1, coordAltitude = 0\<rparr>,
        \<lparr>longitude = (lon1 + lon2) / 2, latitude = (lat1 + lat2) / 2, coordAltitude = 0\<rparr>,
        \<lparr>longitude = lon2, latitude = lat2, coordAltitude = 0\<rparr>])\<rparr>"

definition flatRoute :: "RouteMapObject list" where
  "flatRoute = [wp ''A'' 0, wp ''B'' 10]"

text \<open>The profile of \<open>flatRoute\<close> over \<open>flatEnv\<close>.\<close>

definition flatProfile :: ElevationLegList where
  "flatProfile = \<lparr>routeMapObjects = flatRoute,
    elevationLegs =
      [\<lparr>elevation =
          [\<lparr>lonX = 0, latY = 0, altitude = 0\<rparr>,
           \<lparr>lonX = 5, latY = 0, altitude = 0\<rparr>,
           \<lparr>lonX = 10, latY = 0, altitude = 0\<rparr>],
          distances = [0, 5, 10], maxElevation = 0\<rparr>],
    maxRouteElevation = 0, totalDistance = 10, totalNumPoints = 3\<rparr>"

text \<open>
  A profile of one leg whose highest sample is at \<open>500 + 2 ^ (- 15)\<close> ft, a number that
  single precision represents exactly.
\<close>

definition hillProfile :: ElevationLegList where
  "hillProfile = \<lparr>routeMapObjects = flatRoute,
    elevationLegs =
      [\<lparr>elevation =
          [\<lparr>lonX = 0, latY = 0, altitude = 0\<rparr>,
           \<lparr>lonX = 5, latY = 0, altitude = 500 + 1 / 32768\<rparr>,
           \<lparr>lonX = 10, latY = 0, altitude = 0\<rparr>],
          distances = [0, 5, 10], maxElevation = 500 + 1 / 32768\<rparr>],
    maxRouteElevation = 500 + 1 / 32768, totalDistance = 10, totalNumPoints = 3\<rparr>"

text \<open>
  A widget of the given width and height that holds the given profile and cruise altitude,
  with no aircraft, before its first projection.
\<close>

definition widget :: "int \<Rightarrow> int \<Rightarrow> ElevationLegList \<Rightarrow> int \<Rightarrow> ProfileWidget" where
  "widget wd ht ls cruise =
     \<lparr>rectWidth = wd, rectHeight = ht, legList = ls, cruisingAlt = cruise,
      simPosition = emptyPos exEnv, aircraftShown = False, flightplanEmpty = False,
      maxRouteElevationFt = 0, flightplanAltFt = 0, maxHeight = 0, vertScale = 0,
      horizScale = 0, waypointX = [], poly = []\<rparr>"

text \<open>
  The widget of 530 by 164 pixels with \<open>exProfile\<close>, after its projection in single
  precision; the vertical scale is 150 / 1500 rounded.
\<close>

definition exShown :: ProfileWidget where
  "exShown = (widget 530 164 exProfile 1000)
     \<lparr>maxRouteElevationFt := 1500, flightplanAltFt := 1000, maxHeight := 1500,
      vertScale := 13421773 / 134217728, horizScale := 10,
      waypointX := [65, 165, 265, 365, 465],
      poly := [(65, 164), (65, 134), (115, 133), (165, 133), (165, 133), (215, 133),
        (265, 132), (265, 132), (315, 132), (365, 132), (365, 132), (465, 131), (465, 164)]\<rparr>"

text \<open>The same widget with a valid aircraft position at 2000 ft that the map shows.\<close>

definition aircraftWidget :: ProfileWidget where
  "aircraftWidget = (widget 530 164 exProfile 1000)
     \<lparr>simPosition := \<lparr>lonX = 12, latY = 0, altitude = 2000\<rparr>, aircraftShown := True\<rparr>"

text \<open>The same again, with an empty flight plan.\<close>

definition emptyPlanWidget :: ProfileWidget where
  "emptyPlanWidget = aircraftWidget\<lparr>flightplanEmpty := True\<rparr>"

section \<open>Properties of fetchRouteElevationsThread\<close>

subsection \<open>The loop over the samples\<close>

lemma sampleLoop_returns:
  "(\<And>k. \<not> flag k) \<Longrightarrow> \<exists>st'. sampleLoop env flag n j cs st = Inr st'"
  by (induction cs arbitrary: j st) (simp_all add: Let_def)

lemma sampleLoop_frame:
  "sampleLoop env flag n j cs st = Inr st' \<Longrightarrow>
     elevationLegs (legs st') = elevationLegs (legs st) \<and>
     routeMapObjects (legs st') = routeMapObjects (legs st)"
  by (induction cs arbitrary: j st)
     (auto simp: Let_def keepSample_def split: if_splits)

lemma dropSample_iff:
  "dropSample env n j (st\<lparr>polls := q\<rparr>) pos \<longleftrightarrow>
     j \<noteq> 0 \<and> Suc j \<noteq> n \<and>
     similarAltitude env (length (elevationLegs (legs st))) (lastPos st) pos"
  by (auto simp: dropSample_def similarAltitude_def almostEqual_def)

lemma keepSample_fields:
  "elevation (leg (keepSample env j st pos)) = elevation (leg st) @ [pos]"
  "lastPos (keepSample env j st pos) = pos"
  "elevationLegs (legs (keepSample env j st pos)) = elevationLegs (legs st)"
  "routeMapObjects (legs (keepSample env j st pos)) = routeMapObjects (legs st)"
  "polls (keepSample env j st pos) = polls st"
  "distances (leg (keepSample env j st pos)) =
     distances (leg st) @ [totalDistance (legs (keepSample env j st pos))]"
  "totalDistance (legs (keepSample env j st pos)) =
     (if j > 0 then totalDistance (legs st) + meterToNm env (distanceMeterTo env (lastPos st) pos)
      else totalDistance (legs st))"
  "maxElevation (leg (keepSample env j st pos)) = max (maxElevation (leg st)) (altitude pos)"
  "maxRouteElevation (legs (keepSample env j st pos)) =
     max (maxRouteElevation (legs st)) (altitude pos)"
  by (simp_all add: keepSample_def Let_def max_def)

lemma sampleLoop_elevation:
  "sampleLoop env flag n j cs st = Inr st' \<Longrightarrow>
   (0 < j \<Longrightarrow> elevation (leg st) \<noteq> [] \<and> lastPos st = last (elevation (leg st))) \<Longrightarrow>
   elevation (leg st') =
     thinSamples (similarAltitude env (length (elevationLegs (legs st)))) n j
       (elevation (leg st)) (map (samplePos env) cs)"
proof (induction cs arbitrary: j st)
  case Nil
  then show ?case by simp
next
  case (Cons c cs)
  let ?st1 = "st\<lparr>polls := Suc (polls st)\<rparr>"
  let ?pos = "samplePos env c"
  from Cons.prems(1) have nf: "\<not> flag (polls st)" by (auto split: if_splits)
  show ?case
  proof (cases "dropSample env n j ?st1 ?pos")
    case True
    with Cons.prems(1) nf have run: "sampleLoop env flag n (Suc j) cs ?st1 = Inr st'"
      by (simp add: Let_def)
    from True have d: "j \<noteq> 0" "Suc j \<noteq> n"
      "similarAltitude env (length (elevationLegs (legs st))) (lastPos st) ?pos"
      by (simp_all add: dropSample_iff)
    with Cons.prems(2) have ne: "elevation (leg st) \<noteq> []" "lastPos st = last (elevation (leg st))"
      by simp_all
    from Cons.IH [OF run] ne
    have "elevation (leg st') = thinSamples (similarAltitude env (length (elevationLegs (legs st))))
        n (Suc j) (elevation (leg st)) (map (samplePos env) cs)"
      by simp
    with d ne show ?thesis by simp
  next
    case False
    with Cons.prems(1) nf
    have run: "sampleLoop env flag n (Suc j) cs (keepSample env j ?st1 ?pos) = Inr st'"
      by (simp add: Let_def)
    from Cons.IH [OF run]
    have eq: "elevation (leg st') = thinSamples (similarAltitude env (length (elevationLegs (legs st))))
        n (Suc j) (elevation (leg st) @ [?pos]) (map (samplePos env) cs)"
      by (simp add: keepSample_fields)
    from False have "\<not> (j \<noteq> 0 \<and> Suc j \<noteq> n \<and>
      similarAltitude env (length (elevationLegs (legs st))) (lastPos st) ?pos)"
      by (simp add: dropSample_iff)
    moreover from Cons.prems(2) have "j \<noteq> 0 \<Longrightarrow> lastPos st = last (elevation (leg st))"
      by simp
    ultimately have "\<not> (j \<noteq> 0 \<and> Suc j \<noteq> n \<and> elevation (leg st) \<noteq> [] \<and>
      similarAltitude env (length (elevationLegs (legs st))) (last (elevation (leg st))) ?pos)"
      by auto
    with eq show ?thesis by auto
  qed
qed

lemma sampleLoop_lengths:
  "sampleLoop env flag n j cs st = Inr st' \<Longrightarrow>
   length (distances (leg st)) = length (elevation (leg st)) \<Longrightarrow>
   length (distances (leg st')) = length (elevation (leg st'))"
proof (induction cs arbitrary: j st)
  case Nil
  then show ?case by simp
next
  case (Cons c cs)
  then show ?case
    by (auto simp: Let_def keepSample_fields split: if_splits)
qed

lemma sampleLoop_total:
  "sampleLoop env flag n j cs st = Inr st' \<Longrightarrow>
   (distances (leg st) \<noteq> [] \<Longrightarrow> last (distances (leg st)) = totalDistance (legs st)) \<Longrightarrow>
   (distances (leg st) = [] \<Longrightarrow> j = 0) \<Longrightarrow>
   (distances (leg st) \<noteq> [] \<longrightarrow> distances (leg st') \<noteq> []) \<and>
   (distances (leg st') \<noteq> [] \<longrightarrow>
      last (distances (leg st')) = totalDistance (legs st') \<and>
      hd (distances (leg st')) =
        (if distances (leg st) = [] then totalDistance (legs st) else hd (distances (leg st))))"
proof (induction cs arbitrary: j st)
  case Nil
  then show ?case by simp
next
  case (Cons c cs)
  let ?st1 = "st\<lparr>polls := Suc (polls st)\<rparr>"
  let ?pos = "samplePos env c"
  from Cons.prems(1) have nf: "\<not> flag (polls st)" by (auto split: if_splits)
  show ?case
  proof (cases "dropSample env n j ?st1 ?pos")
    case True
    with Cons.prems(1) nf have run: "sampleLoop env flag n (Suc j) cs ?st1 = Inr st'"
      by (simp add: Let_def)
    from True have "j \<noteq> 0" by (simp add: dropSample_def)
    with Cons.prems(3) have ne: "distances (leg st) \<noteq> []" by auto
    from Cons.IH [OF run] Cons.prems(2) ne show ?thesis by simp
  next
    case False
    let ?st2 = "keepSample env j ?st1 ?pos"
    from False Cons.prems(1) nf
    have run: "sampleLoop env flag n (Suc j) cs ?st2 = Inr st'"
      by (simp add: Let_def)
    have a: "distances (leg ?st2) \<noteq> []"
      by (simp add: keepSample_fields(6))
    have b: "last (distances (leg ?st2)) = totalDistance (legs ?st2)"
      by (simp add: keepSample_fields(6))
    have c: "hd (distances (leg ?st2)) =
       (if distances (leg st) = [] then totalDistance (legs st) else hd (distances (leg st)))"
      using Cons.prems(3) by (simp add: keepSample_fields(6,7))
    from Cons.IH [OF run] a b have
      "distances (leg st') \<noteq> []"
      "last (distances (leg st')) = totalDistance (legs st')"
      "hd (distances (leg st')) = hd (distances (leg ?st2))"
      by simp_all
    with c show ?thesis by simp
  qed
qed

lemma sampleLoop_sorted:
  assumes nonneg: "\<And>a b. 0 \<le> meterToNm env (distanceMeterTo env a b)"
  shows "sampleLoop env flag n j cs st = Inr st' \<Longrightarrow>
   sorted (distances (leg st)) \<Longrightarrow>
   (\<forall>d \<in> set (distances (leg st)). d \<le> totalDistance (legs st)) \<Longrightarrow>
   sorted (distances (leg st')) \<and>
   (\<forall>d \<in> set (distances (leg st')). d \<le> totalDistance (legs st'))"
proof (induction cs arbitrary: j st)
  case Nil
  then show ?case by simp
next
  case (Cons c cs)
  let ?st1 = "st\<lparr>polls := Suc (polls st)\<rparr>"
  let ?pos = "samplePos env c"
  from Cons.prems(1) have nf: "\<not> flag (polls st)" by (auto split: if_splits)
  show ?case
  proof (cases "dropSample env n j ?st1 ?pos")
    case True
    with Cons.prems(1) nf have run: "sampleLoop env flag n (Suc j) cs ?st1 = Inr st'"
      by (simp add: Let_def)
    from Cons.IH [OF run] Cons.prems(2,3) show ?thesis by simp
  next
    case False
    let ?st2 = "keepSample env j ?st1 ?pos"
    from False Cons.prems(1) nf
    have run: "sampleLoop env flag n (Suc j) cs ?st2 = Inr st'"
      by (simp add: Let_def)
    have up: "totalDistance (legs st) \<le> totalDistance (legs ?st2)"
      using nonneg [of "lastPos st" ?pos] by (simp add: keepSample_fields(7))
    have a: "sorted (distances (leg ?st2))"
      using Cons.prems(2,3) up by (auto simp: keepSample_fields(6) sorted_append)
    have b: "\<forall>d \<in> set (distances (leg ?st2)). d \<le> totalDistance (legs ?st2)"
      using Cons.prems(3) up by (auto simp: keepSample_fields(6))
    from Cons.IH [OF run a b] show ?thesis .
  qed
qed

lemma sampleLoop_max:
  "sampleLoop env flag n j cs st = Inr st' \<Longrightarrow>
   maxElevation (leg st) \<le> maxRouteElevation (legs st) \<Longrightarrow>
   maxElevation (leg st) \<le> maxElevation (leg st') \<and>
   maxRouteElevation (legs st') = max (maxRouteElevation (legs st)) (maxElevation (leg st'))"
proof (induction cs arbitrary: j st)
  case Nil
  then show ?case by simp
next
  case (Cons c cs)
  let ?st1 = "st\<lparr>polls := Suc (polls st)\<rparr>"
  let ?pos = "samplePos env c"
  from Cons.prems(1) have nf: "\<not> flag (polls st)" by (auto split: if_splits)
  show ?case
  proof (cases "dropSample env n j ?st1 ?pos")
    case True
    with Cons.prems(1) nf have run: "sampleLoop env flag n (Suc j) cs ?st1 = Inr st'"
      by (simp add: Let_def)
    from Cons.IH [OF run] Cons.prems(2) show ?thesis by simp
  next
    case False
    let ?st2 = "keepSample env j ?st1 ?pos"
    from False Cons.prems(1) nf
    have run: "sampleLoop env flag n (Suc j) cs ?st2 = Inr st'"
      by (simp add: Let_def)
    have a: "maxElevation (leg ?st2) \<le> maxRouteElevation (legs ?st2)"
      using Cons.prems(2) by (simp add: keepSample_fields(8,9))
    from Cons.IH [OF run a] show ?thesis
      by (auto simp: keepSample_fields(8,9) max_def split: if_splits)
  qed
qed

lemma thinSamples_nonempty:
  "kept \<noteq> [] \<or> (ps \<noteq> [] \<and> j = 0) \<Longrightarrow> thinSamples similar n j kept ps \<noteq> []"
  by (induction ps arbitrary: j kept) auto

lemma legSamples_nonempty: "legSamples env a b \<noteq> []"
  by (simp add: legSamples_def Let_def)

lemma segmentPositions_nonempty: "segmentPositions env rmos k \<noteq> []"
  by (simp add: segmentPositions_def legSamples_nonempty)

lemma fold_max_nonneg: "(0::real) \<le> s \<Longrightarrow> 0 \<le> fold max xs s"
  by (induction xs arbitrary: s) (auto simp: max_def)

lemma legBuilt_append:
  "k < length L \<Longrightarrow> legBuilt env rmos (L @ [lg]) k = legBuilt env rmos L k"
  by (simp add: legBuilt_def nth_append)

lemma leg_step:
  assumes inv: "profileInv env ls"
    and lt: "Suc (length (elevationLegs ls)) < length (routeMapObjects ls)"
    and elev: "elev = legSamples env (routeMapObjects ls ! length (elevationLegs ls))
        (routeMapObjects ls ! Suc (length (elevationLegs ls)))"
    and run: "sampleLoop env flag (length elev) 0 elev
        \<lparr>legs = ls, leg = emptyLeg, lastPos = emptyPos env, polls = q\<rparr> = Inr st"
  shows "profileInv env ((legs st)\<lparr>elevationLegs := elevationLegs (legs st) @ [leg st]\<rparr>)"
proof -
  let ?st0 = "\<lparr>legs = ls, leg = emptyLeg, lastPos = emptyPos env, polls = q\<rparr>"
  let ?L = "elevationLegs ls"
  let ?k = "length ?L"
  let ?rmos = "routeMapObjects ls"
  from sampleLoop_frame [OF run]
  have frame: "elevationLegs (legs st) = ?L" "routeMapObjects (legs st) = ?rmos"
    by simp_all
  have ps: "map (samplePos env) elev = segmentPositions env ?rmos ?k"
    by (simp add: segmentPositions_def elev)
  from sampleLoop_elevation [OF run]
  have el: "elevation (leg st) =
      thinSamples (similarAltitude env ?k) (length (segmentPositions env ?rmos ?k)) 0 []
        (segmentPositions env ?rmos ?k)"
    using ps [symmetric] by (simp add: emptyLeg_def)
  then have el_ne: "elevation (leg st) \<noteq> []"
    using thinSamples_nonempty segmentPositions_nonempty by metis
  from sampleLoop_lengths [OF run]
  have len: "length (distances (leg st)) = length (elevation (leg st))"
    by (simp add: emptyLeg_def)
  with el_ne have d_ne: "distances (leg st) \<noteq> []" by auto
  from sampleLoop_total [OF run] d_ne
  have tot: "last (distances (leg st)) = totalDistance (legs st)"
    and hd: "hd (distances (leg st)) = totalDistance ls"
    by (simp_all add: emptyLeg_def)
  from inv have mr: "maxRouteElevation ls = fold max (map maxElevation ?L) 0"
    and td: "totalDistance ls = endDistance ?L"
    and built: "\<And>k. k < ?k \<Longrightarrow> legBuilt env ?rmos ?L k"
    by (simp_all add: profileInv_def)
  from mr have "0 \<le> maxRouteElevation ls" by (simp add: fold_max_nonneg)
  with sampleLoop_max [OF run]
  have mx: "0 \<le> maxElevation (leg st)"
    "maxRouteElevation (legs st) = max (maxRouteElevation ls) (maxElevation (leg st))"
    by (simp_all add: emptyLeg_def)
  have new: "legBuilt env ?rmos (?L @ [leg st]) ?k"
    using el len hd td mx(1) by (simp add: legBuilt_def)
  have all: "legBuilt env ?rmos (?L @ [leg st]) k" if "k < Suc ?k" for k
  proof (cases "k < ?k")
    case True
    then show ?thesis using built by (simp add: legBuilt_append)
  next
    case False
    with that have "k = ?k" by simp
    then show ?thesis using new by simp
  qed
  show ?thesis
    using all tot mx(2) mr
    by (simp add: profileInv_def frame endDistance_def max.commute)
qed

lemma legLoop_inv:
  "(\<forall>q. \<not> flag q) \<Longrightarrow> profileInv env ls \<Longrightarrow> Suc (length (elevationLegs ls)) = i \<Longrightarrow>
   profileInv env (legLoop env flag i ls k) \<and>
   routeMapObjects (legLoop env flag i ls k) = routeMapObjects ls \<and>
   Suc (length (elevationLegs (legLoop env flag i ls k))) = max i (length (routeMapObjects ls))"
proof (induction env flag i ls k rule: legLoop.induct)
  case (1 env flag i ls k)
  show ?case
  proof (cases "i < length (routeMapObjects ls)")
    case False
    then have "legLoop env flag i ls k = ls"
      by (simp add: legLoop.simps [of env flag i ls k])
    with False "1.prems"(2,3) show ?thesis by simp
  next
    case True
    from "1.prems"(1) have nf: "\<not> flag k" by simp
    define elev where "elev = legSamples env (routeMapObjects ls ! (i - 1)) (routeMapObjects ls ! i)"
    obtain st where run: "sampleLoop env flag (length elev) 0 elev
        \<lparr>legs = ls, leg = emptyLeg, lastPos = emptyPos env, polls = Suc k\<rparr> = Inr st"
      using sampleLoop_returns [of flag env] "1.prems"(1) by blast
    define ls' where "ls' = (legs st)\<lparr>elevationLegs := elevationLegs (legs st) @ [leg st]\<rparr>"
    have step: "legLoop env flag i ls k = legLoop env flag (Suc i) ls' (polls st)"
      using True nf run
      by (simp add: legLoop.simps [of env flag i ls k] Let_def elev_def ls'_def)
    from sampleLoop_frame [OF run]
    have frame: "elevationLegs (legs st) = elevationLegs ls"
      "routeMapObjects (legs st) = routeMapObjects ls"
      by simp_all
    have i: "i - 1 = length (elevationLegs ls)" "i = Suc (length (elevationLegs ls))"
      using "1.prems"(3) by simp_all
    have inv': "profileInv env ls'"
      unfolding ls'_def
      using leg_step [OF "1.prems"(2) _ _ run [unfolded elev_def i]] True i
      by simp
    have len': "Suc (length (elevationLegs ls')) = Suc i"
      using i by (simp add: ls'_def frame)
    from "1.IH" [OF True nf refl refl refl run [unfolded elev_def] "1.prems"(1)
        inv' [unfolded ls'_def] len' [unfolded ls'_def]]
    show ?thesis
      using True by (simp add: step ls'_def frame)
  qed
qed

lemma fetch_inv:
  assumes "\<forall>q. \<not> flag q"
  shows "profileInv env (fetchRouteElevationsThread env flag rmos)"
    and "routeMapObjects (fetchRouteElevationsThread env flag rmos) = rmos"
    and "Suc (length (elevationLegs (fetchRouteElevationsThread env flag rmos))) = max 1 (length rmos)"
proof -
  let ?ls0 = "\<lparr>routeMapObjects = rmos, elevationLegs = [], maxRouteElevation = 0,
        totalDistance = 0, totalNumPoints = 0\<rparr>"
  have "profileInv env ?ls0" by (simp add: profileInv_def endDistance_def)
  from legLoop_inv [OF assms this, of 1 0]
  show "profileInv env (fetchRouteElevationsThread env flag rmos)"
    and "routeMapObjects (fetchRouteElevationsThread env flag rmos) = rmos"
    and "Suc (length (elevationLegs (fetchRouteElevationsThread env flag rmos))) = max 1 (length rmos)"
    by (simp_all add: fetchRouteElevationsThread_def)
qed

lemma exProfile_run: "fetchRouteElevationsThread exEnv never exRoute = exProfile"
  by (simp add: fetchRouteElevationsThread_def legLoop.simps exRoute_def wp_def never_def exEnv_def legSamples_def
      samplePos_def dropSample_def keepSample_def almostEqual_def emptyLeg_def Let_def exProfile_def)

lemma legLoop_sorted:
  "(\<forall>q. \<not> flag q) \<Longrightarrow> (\<forall>a b. 0 \<le> meterToNm env (distanceMeterTo env a b)) \<Longrightarrow>
   (\<forall>lg \<in> set (elevationLegs ls). sorted (distances lg)) \<Longrightarrow>
   (\<forall>lg \<in> set (elevationLegs (legLoop env flag i ls k)). sorted (distances lg))"
proof (induction env flag i ls k rule: legLoop.induct)
  case (1 env flag i ls k)
  show ?case
  proof (cases "i < length (routeMapObjects ls)")
    case False
    then have "legLoop env flag i ls k = ls"
      by (simp add: legLoop.simps [of env flag i ls k])
    with "1.prems"(3) show ?thesis by simp
  next
    case True
    from "1.prems"(1) have nf: "\<not> flag k" by simp
    define elev where "elev = legSamples env (routeMapObjects ls ! (i - 1)) (routeMapObjects ls ! i)"
    obtain st where run: "sampleLoop env flag (length elev) 0 elev
        \<lparr>legs = ls, leg = emptyLeg, lastPos = emptyPos env, polls = Suc k\<rparr> = Inr st"
      using sampleLoop_returns [of flag env] "1.prems"(1) by blast
    define ls' where "ls' = (legs st)\<lparr>elevationLegs := elevationLegs (legs st) @ [leg st]\<rparr>"
    have step: "legLoop env flag i ls k = legLoop env flag (Suc i) ls' (polls st)"
      using True nf run
      by (simp add: legLoop.simps [of env flag i ls k] Let_def elev_def ls'_def)
    from sampleLoop_frame [OF run]
    have frame: "elevationLegs (legs st) = elevationLegs ls"
      by simp
    from "1.prems"(2) have nonneg: "\<And>a b. 0 \<le> meterToNm env (distanceMeterTo env a b)"
      by simp
    from sampleLoop_sorted [OF nonneg run]
    have "sorted (distances (leg st))" by (simp add: emptyLeg_def)
    with "1.prems"(3) have all: "\<forall>lg \<in> set (elevationLegs ls'). sorted (distances lg)"
      by (simp add: ls'_def frame)
    from "1.IH" [OF True nf refl refl refl run [unfolded elev_def] "1.prems"(1,2)
        all [unfolded ls'_def]]
    show ?thesis
      by (simp add: step ls'_def)
  qed
qed

lemma fetch_sorted:
  assumes "\<forall>q. \<not> flag q" and "\<forall>a b. 0 \<le> meterToNm env (distanceMeterTo env a b)"
  shows "\<forall>lg \<in> set (elevationLegs (fetchRouteElevationsThread env flag rmos)).
    sorted (distances lg)"
  unfolding fetchRouteElevationsThread_def
  by (rule legLoop_sorted [OF assms]) simp

lemma thinSamples_hd_kept:
  "kept \<noteq> [] \<Longrightarrow> hd (thinSamples similar n j kept ps) = hd kept"
  by (induction ps arbitrary: j kept) auto

lemma thinSamples_hd:
  "ps \<noteq> [] \<Longrightarrow> hd (thinSamples similar n 0 [] ps) = hd ps"
  by (cases ps) (simp_all add: thinSamples_hd_kept)

lemma thinSamples_last:
  "ps \<noteq> [] \<Longrightarrow> j + length ps = n \<Longrightarrow> last (thinSamples similar n j kept ps) = last ps"
proof (induction ps arbitrary: j kept)
  case Nil
  then show ?case by simp
next
  case (Cons p ps)
  show ?case
  proof (cases "ps = []")
    case True
    with Cons.prems show ?thesis by simp
  next
    case False
    with Cons.prems Cons.IH [of "Suc j"] show ?thesis by simp
  qed
qed

lemma deltas_telescope:
  "(\<forall>k < length L. hd (distances (L ! k)) = endDistance (take k L)) \<Longrightarrow>
   (\<Sum>lg\<leftarrow>L. last (distances lg) - hd (distances lg)) = endDistance L"
proof (induction L rule: rev_induct)
  case Nil
  then show ?case by (simp add: endDistance_def)
next
  case (snoc x xs)
  have "\<forall>k < length xs. hd (distances (xs ! k)) = endDistance (take k xs)"
  proof (intro allI impI)
    fix k assume k: "k < length xs"
    with snoc.prems have "hd (distances ((xs @ [x]) ! k)) = endDistance (take k (xs @ [x]))"
      by simp
    with k show "hd (distances (xs ! k)) = endDistance (take k xs)"
      by (simp add: nth_append)
  qed
  with snoc.IH have ih: "(\<Sum>lg\<leftarrow>xs. last (distances lg) - hd (distances lg)) = endDistance xs"
    by simp
  have "length xs < length (xs @ [x])" by simp
  with snoc.prems
  have "hd (distances ((xs @ [x]) ! length xs)) = endDistance (take (length xs) (xs @ [x]))"
    by blast
  then have "hd (distances x) = endDistance xs" by simp
  with ih show ?case by (simp add: endDistance_def)
qed

lemma fold_max_Max:
  "xs \<noteq> [] \<Longrightarrow> \<forall>x \<in> set xs. (0::real) \<le> x \<Longrightarrow> fold max xs 0 = Max (set xs)"
proof -
  assume ne: "xs \<noteq> []" and nn: "\<forall>x \<in> set xs. (0::real) \<le> x"
  have "fold max xs 0 = Max (set (0 # xs))" by (simp only: Max.set_eq_fold)
  also have "\<dots> = max 0 (Max (set xs))" using ne by simp
  also have "\<dots> = Max (set xs)"
  proof -
    from ne obtain x where "x \<in> set xs" by (cases xs) auto
    with nn have "0 \<le> x" "x \<le> Max (set xs)" by simp_all
    then show ?thesis by simp
  qed
  finally show ?thesis .
qed

lemma fetch_legBuilt:
  assumes "\<forall>q. \<not> flag q" and "k < length (elevationLegs (fetchRouteElevationsThread env flag rmos))"
  shows "legBuilt env rmos (elevationLegs (fetchRouteElevationsThread env flag rmos)) k"
  using fetch_inv(1,2) [OF assms(1), of env rmos] assms(2)
  by (simp add: profileInv_def)

lemmas run_defs = fetchRouteElevationsThread_def legLoop.simps wp_def never_def exEnv_def
  legSamples_def samplePos_def dropSample_def keepSample_def almostEqual_def emptyLeg_def Let_def

lemma never_flag: "\<forall>q. \<not> never q"
  by (simp add: never_def)

lemma fetch_length:
  "Suc k < length rmos \<longleftrightarrow> k < length (elevationLegs (fetchRouteElevationsThread env never rmos))"
  using fetch_inv(3) [OF never_flag, of env rmos] by auto

lemma exEnv_nonneg: "\<forall>a b. 0 \<le> meterToNm exEnv (distanceMeterTo exEnv a b)"
  by (simp add: exEnv_def)

lemma fetch_leg_nonempty:
  assumes "k < length (elevationLegs (fetchRouteElevationsThread env never rmos))"
  shows "elevation (elevationLegs (fetchRouteElevationsThread env never rmos) ! k) \<noteq> []"
    and "distances (elevationLegs (fetchRouteElevationsThread env never rmos) ! k) \<noteq> []"
proof -
  let ?lg = "elevationLegs (fetchRouteElevationsThread env never rmos) ! k"
  from fetch_legBuilt [OF never_flag assms]
  have el: "elevation ?lg = thinSamples (similarAltitude env k)
        (length (segmentPositions env rmos k)) 0 [] (segmentPositions env rmos k)"
    and len: "length (distances ?lg) = length (elevation ?lg)"
    by (simp_all add: legBuilt_def)
  from el show "elevation ?lg \<noteq> []"
    using thinSamples_nonempty segmentPositions_nonempty by metis
  with len show "distances ?lg \<noteq> []" by auto
qed

lemma sampleLoop_cancelled:
  "sampleLoop env flag n j cs st = Inl r \<Longrightarrow> r = emptyLegList"
  by (induction cs arbitrary: j st) (auto simp: Let_def split: if_splits)

lemma farProfile_leg4:
  "map altitude (elevation (elevationLegs (fetchRouteElevationsThread exEnv never farRoute) ! 4)) =
     [414, 417, 420]"
  by (simp add: farRoute_def run_defs)

section \<open>Properties of the single precision arithmetic\<close>

text \<open>
  \<open>exponent\<close> is the binary exponent of a number that is not zero, and \<open>roundEven\<close> gives a
  nearest integer, so that \<open>float32\<close> moves a number by at most half the spacing of the
  floats around it.
\<close>

lemma real_le_pow2: "n \<le> 2 ^ k \<Longrightarrow> real n \<le> 2 ^ k"
proof -
  assume "n \<le> 2 ^ k"
  then have "real n \<le> real (2 ^ k)" by (simp only: of_nat_le_iff)
  then show ?thesis by simp
qed

lemma pow2_le_real: "2 ^ k \<le> n \<Longrightarrow> 2 ^ k \<le> real n"
proof -
  assume "2 ^ k \<le> n"
  then have "real (2 ^ k) \<le> real n" by (simp only: of_nat_le_iff)
  then show ?thesis by simp
qed

lemma log2floor_bounds: "0 < n \<Longrightarrow> 2 ^ log2floor n \<le> n \<and> n < 2 ^ Suc (log2floor n)"
proof (induction n rule: log2floor.induct)
  case (1 n)
  show ?case
  proof (cases "n < 2")
    case True
    with "1.prems" have "n = 1" by simp
    then show ?thesis by (simp add: log2floor.simps [of "Suc 0"])
  next
    case False
    then have "0 < n div 2" by simp
    from "1.IH" [OF False this]
    have "2 ^ log2floor (n div 2) \<le> n div 2" "n div 2 < 2 ^ Suc (log2floor (n div 2))"
      by simp_all
    moreover have "log2floor n = Suc (log2floor (n div 2))"
      using False by (simp add: log2floor.simps [of n])
    ultimately show ?thesis by simp linarith
  qed
qed

lemma exponent_bounds:
  assumes "x \<noteq> 0"
  shows "2 powi (exponent x) \<le> \<bar>x\<bar> \<and> \<bar>x\<bar> < 2 powi (exponent x + 1)"
proof (cases "1 \<le> \<bar>x\<bar>")
  case True
  let ?n = "nat \<lfloor>\<bar>x\<bar>\<rfloor>"
  from True have n: "0 < ?n" by simp
  from True have e: "exponent x = int (log2floor ?n)" by (simp add: exponent_def)
  from log2floor_bounds [OF n]
  have lo: "2 ^ log2floor ?n \<le> ?n" and hi: "?n < 2 ^ Suc (log2floor ?n)" by simp_all
  have "real ?n \<le> \<bar>x\<bar>" using True by simp
  moreover from lo have "(2::real) ^ log2floor ?n \<le> real ?n"
    by (rule pow2_le_real)
  ultimately have a: "(2::real) ^ log2floor ?n \<le> \<bar>x\<bar>" by linarith
  have "\<bar>x\<bar> < real ?n + 1" using True by linarith
  moreover have "real ?n + 1 \<le> (2::real) ^ Suc (log2floor ?n)"
  proof -
    from hi have "Suc ?n \<le> 2 ^ Suc (log2floor ?n)" by simp
    from real_le_pow2 [OF this] show ?thesis by simp
  qed
  ultimately have b: "\<bar>x\<bar> < (2::real) ^ Suc (log2floor ?n)" by linarith
  from a b show ?thesis
    unfolding e by (simp add: power_int_add)
next
  case False
  with assms have x: "0 < \<bar>x\<bar>" "\<bar>x\<bar> < 1" by simp_all
  define y where "y = 1 / \<bar>x\<bar>"
  define m where "m = nat \<lceil>y\<rceil>"
  define j where "j = log2floor (m - 1)"
  from x have y: "1 < y" by (simp add: y_def)
  then have c: "2 \<le> \<lceil>y\<rceil>" by linarith
  then have m: "2 \<le> m" unfolding m_def by linarith
  have ym: "y \<le> real m" "real m < y + 1"
    unfolding m_def using c by linarith+
  from m have nle: "\<not> m \<le> 1" by simp
  have e: "exponent x = - int (Suc j)"
    using False nle
    by (simp only: exponent_def Let_def if_False y_def [symmetric] m_def [symmetric]
        j_def [symmetric])
  from m have "0 < m - 1" by simp
  from log2floor_bounds [OF this]
  have lo: "2 ^ j \<le> m - 1" and hi: "m - 1 < 2 ^ Suc j" by (simp_all add: j_def)
  from hi m have "m \<le> 2 ^ Suc j" by linarith
  then have "real m \<le> (2::real) ^ Suc j"
    by (rule real_le_pow2)
  with ym have yu: "y \<le> (2::real) ^ Suc j" by linarith
  from lo have "(2::real) ^ j \<le> real (m - 1)"
    by (rule pow2_le_real)
  moreover have "real (m - 1) < y" using ym m by (simp add: of_nat_diff)
  ultimately have yl: "(2::real) ^ j < y" by linarith
  from yu x have a: "1 / (2::real) ^ Suc j \<le> \<bar>x\<bar>"
    by (simp add: y_def field_simps)
  from yl x have b: "\<bar>x\<bar> < 1 / (2::real) ^ j"
    by (simp add: y_def field_simps)
  have pw: "2 powi (- int k) = 1 / (2::real) ^ k" for k
    by (simp only: power_int_minus power_int_of_nat inverse_eq_divide)
  have p1: "2 powi (- int (Suc j)) = 1 / (2::real) ^ Suc j"
    by (rule pw)
  have "- int (Suc j) + 1 = - int j" by simp
  then have p2: "2 powi (- int (Suc j) + 1) = 1 / (2::real) ^ j"
    by (simp only: pw)
  from a b show ?thesis
    unfolding e p1 p2 by simp
qed

lemma roundEven_nearest: "\<bar>real_of_int (roundEven x) - x\<bar> \<le> 1 / 2"
  by (simp add: roundEven_def Let_def; linarith)

section \<open>Properties of updateScreenCoords\<close>

lemma legPoints_drop:
  "i < length (elevation lg) \<Longrightarrow>
   drop i (legPoints fl hs vs h lg) =
     (X0 + toInt (fmul fl (distances lg ! i) hs),
      Y0 + toInt (fsub fl (ofInt fl h) (fmul fl (altitude (elevation lg ! i)) vs))) #
     drop (Suc i) (legPoints fl hs vs h lg)"
  by (simp add: legPoints_def drop_map upt_conv_Cons)

lemma legPoints_drop_all:
  "\<not> i < length (elevation lg) \<Longrightarrow> drop i (legPoints fl hs vs h lg) = []"
  by (simp add: legPoints_def)

lemma projectLeg_thin:
  "length (elevation lg) \<le> length (distances lg) \<Longrightarrow>
   lastPt = (case la of None \<Rightarrow> (0, 0) | Some l \<Rightarrow> l) \<Longrightarrow>
   \<exists>lp. projectLeg fl hs vs h lg i lastPt pl =
     Some (lp, pl @ thinPoints farOrNull (length (elevation lg)) i la
                     (drop i (legPoints fl hs vs h lg)))"
proof (induction fl hs vs h lg i lastPt pl arbitrary: la rule: projectLeg.induct)
  case (1 fl hs vs h lg i lastPt pl)
  let ?n = "length (elevation lg)"
  show ?case
  proof (cases "i < ?n")
    case False
    then show ?thesis
      by (simp add: projectLeg.simps [of fl hs vs h lg i lastPt pl] legPoints_drop_all)
  next
    case True
    with "1.prems"(1) have d: "i < length (distances lg)" by simp
    let ?pt = "(X0 + toInt (fmul fl (distances lg ! i) hs),
                Y0 + toInt (fsub fl (ofInt fl h) (fmul fl (altitude (elevation lg ! i)) vs)))"
    have rule: "(isNull lastPt \<or> int i = int ?n - 1 \<or> manhattanLength (pointDiff lastPt ?pt) > 2) =
      (la = None \<or> Suc i = ?n \<or> (case la of None \<Rightarrow> False | Some l \<Rightarrow> farOrNull l ?pt))"
      using "1.prems"(2) by (cases la) (auto simp: farOrNull_def isNull_def)
    show ?thesis
    proof (cases "isNull lastPt \<or> int i = int ?n - 1 \<or> manhattanLength (pointDiff lastPt ?pt) > 2")
      case app: True
      from "1.IH"(1) [OF True d refl refl app "1.prems"(1), of "Some ?pt"]
      obtain lp where "projectLeg fl hs vs h lg (Suc i) ?pt (pl @ [?pt]) =
          Some (lp, (pl @ [?pt]) @ thinPoints farOrNull ?n (Suc i) (Some ?pt)
                     (drop (Suc i) (legPoints fl hs vs h lg)))"
        by auto
      moreover have "projectLeg fl hs vs h lg i lastPt pl =
          projectLeg fl hs vs h lg (Suc i) ?pt (pl @ [?pt])"
        using True d app by (simp add: projectLeg.simps [of fl hs vs h lg i lastPt pl] Let_def)
      moreover have "thinPoints farOrNull ?n i la (drop i (legPoints fl hs vs h lg)) =
          ?pt # thinPoints farOrNull ?n (Suc i) (Some ?pt) (drop (Suc i) (legPoints fl hs vs h lg))"
      proof -
        from app rule
        have "la = None \<or> Suc i = ?n \<or> (case la of None \<Rightarrow> False | Some l \<Rightarrow> farOrNull l ?pt)"
          by blast
        then show ?thesis
          by (simp only: legPoints_drop [OF True] thinPoints.simps if_True)
      qed
      ultimately show ?thesis by simp
    next
      case skip: False
      from "1.IH"(2) [OF True d refl refl skip "1.prems"(1,2)]
      obtain lp where "projectLeg fl hs vs h lg (Suc i) lastPt pl =
          Some (lp, pl @ thinPoints farOrNull ?n (Suc i) la
                     (drop (Suc i) (legPoints fl hs vs h lg)))"
        by auto
      moreover have "projectLeg fl hs vs h lg i lastPt pl =
          projectLeg fl hs vs h lg (Suc i) lastPt pl"
        using True d skip by (simp add: projectLeg.simps [of fl hs vs h lg i lastPt pl] Let_def)
      moreover have "thinPoints farOrNull ?n i la (drop i (legPoints fl hs vs h lg)) =
          thinPoints farOrNull ?n (Suc i) la (drop (Suc i) (legPoints fl hs vs h lg))"
      proof -
        from skip rule
        have "\<not> (la = None \<or> Suc i = ?n \<or> (case la of None \<Rightarrow> False | Some l \<Rightarrow> farOrNull l ?pt))"
          by blast
        then show ?thesis
          by (simp only: legPoints_drop [OF True] thinPoints.simps if_False)
      qed
      ultimately show ?thesis by simp
    qed
  qed
qed

lemma projectLegs_thin:
  "legsReadable L \<Longrightarrow>
   projectLegs fl hs vs h L wpx pl =
     Some (wpx @ map (\<lambda>lg. X0 + toInt (fmul fl (hd (distances lg)) hs)) L,
           pl @ concat (map (\<lambda>lg. thinPoints farOrNull (length (elevation lg)) 0 None
                                    (legPoints fl hs vs h lg)) L))"
proof (induction L arbitrary: wpx pl)
  case Nil
  then show ?case by simp
next
  case (Cons lg L)
  from Cons.prems have ne: "distances lg \<noteq> []"
    and le: "length (elevation lg) \<le> length (distances lg)"
    and rest: "legsReadable L"
    by (simp_all add: legsReadable_def)
  from ne obtain d ds where ds: "distances lg = d # ds" by (cases "distances lg") auto
  from projectLeg_thin [OF le, of "(0, 0)" None fl hs vs h 0 pl]
  obtain lp where leg: "projectLeg fl hs vs h lg 0 (0, 0) pl =
      Some (lp, pl @ thinPoints farOrNull (length (elevation lg)) 0 None
                       (legPoints fl hs vs h lg))"
    by auto
  show ?case
    using Cons.IH [OF rest] by (simp add: ds leg)
qed

lemma thinPoints_no_null:
  "\<forall>p \<in> set pts. \<not> isNull p \<Longrightarrow> (case la of None \<Rightarrow> True | Some l \<Rightarrow> \<not> isNull l) \<Longrightarrow>
   thinPoints farOrNull n i la pts = thinPoints claimedFar n i la pts"
proof (induction pts arbitrary: i la)
  case Nil
  then show ?case by simp
next
  case (Cons pt pts)
  from Cons.prems(2) have far: "(case la of None \<Rightarrow> False | Some l \<Rightarrow> farOrNull l pt) =
      (case la of None \<Rightarrow> False | Some l \<Rightarrow> claimedFar l pt)"
    by (cases la) (simp_all add: farOrNull_def claimedFar_def)
  from Cons.prems(1) have pt: "\<not> isNull pt" and rest: "\<forall>p \<in> set pts. \<not> isNull p"
    by simp_all
  from Cons.IH [OF rest, of "Some pt" "Suc i"] pt
  have a: "thinPoints farOrNull n (Suc i) (Some pt) pts =
      thinPoints claimedFar n (Suc i) (Some pt) pts"
    by simp
  from Cons.IH [OF rest Cons.prems(2), of "Suc i"]
  have b: "thinPoints farOrNull n (Suc i) la pts = thinPoints claimedFar n (Suc i) la pts" .
  show ?case
    by (simp only: thinPoints.simps far a b)
qed

lemma fetch_readable: "legsReadable (elevationLegs (fetchRouteElevationsThread env never rmos))"
proof -
  let ?L = "elevationLegs (fetchRouteElevationsThread env never rmos)"
  have "distances (?L ! k) \<noteq> [] \<and> length (elevation (?L ! k)) \<le> length (distances (?L ! k))"
    if k: "k < length ?L" for k
    using fetch_leg_nonempty(2) [OF k] fetch_legBuilt [OF never_flag k]
    by (simp add: legBuilt_def)
  then show ?thesis
    by (auto simp: legsReadable_def in_set_conv_nth)
qed

lemma updateScreenCoords_readable:
  assumes "legsReadable (elevationLegs (legList pw))"
  shows "updateScreenCoords fl env pw =
    Some (pw\<lparr>maxRouteElevationFt := roundedElevation fl (maxRouteElevation (legList pw)),
      flightplanAltFt := ofInt fl (cruisingAlt pw),
      maxHeight := topAltitude fl env pw,
      vertScale := vertScaleOf fl env pw,
      horizScale := horizScaleOf fl pw,
      waypointX :=
        map (\<lambda>lg. X0 + toInt (fmul fl (hd (distances lg)) (horizScaleOf fl pw)))
          (elevationLegs (legList pw)) @ [X0 + (rectWidth pw - X0 * 2)],
      poly := ((X0, rectHeight pw - Y0 + Y0) #
        concat (map (\<lambda>lg. thinPoints farOrNull (length (elevation lg)) 0 None
            (legPoints fl (horizScaleOf fl pw) (vertScaleOf fl env pw) (rectHeight pw - Y0) lg))
          (elevationLegs (legList pw)))) @
        [(X0 + (rectWidth pw - X0 * 2), rectHeight pw - Y0 + Y0)]\<rparr>)"
  by (simp add: updateScreenCoords_def Let_def projectLegs_thin [OF assms]
      vertScaleOf_def horizScaleOf_def)

lemmas f32_defs = ieee32_def float32_def exponent_def roundEven_def log2floor.simps

lemmas point_defs = legPoints_def farOrNull_def isNull_def
  pointDiff_def manhattanLength_def toInt_def X0_def Y0_def upt_conv_Cons

lemma exProfile_readable: "legsReadable (elevationLegs exProfile)"
  by (simp add: legsReadable_def exProfile_def)

lemma exWidget_scales:
  "horizScaleOf ieee32 (widget 530 164 exProfile 1000) = 10"
  "vertScaleOf ieee32 exEnv (widget 530 164 exProfile 1000) = 13421773 / 134217728"
  "topAltitude ieee32 exEnv (widget 530 164 exProfile 1000) = 1500"
  "roundedElevation ieee32 (maxRouteElevation (legList (widget 530 164 exProfile 1000))) = 1500"
  by (simp_all add: horizScaleOf_def vertScaleOf_def topAltitude_def roundedElevation_def
      widget_def exProfile_def exEnv_def X0_def Y0_def f32_defs Let_def)

lemma exProfile_points:
  "map (legPoints ieee32 10 (13421773 / 134217728) 150) (elevationLegs exProfile) =
     [[(65, 134), (115, 133), (165, 133)], [(165, 133), (215, 133), (265, 132)],
      [(265, 132), (315, 132), (365, 132)], [(365, 132), (465, 131)]]"
  by (simp add: exProfile_def legPoints_def toInt_def X0_def Y0_def upt_conv_Cons f32_defs Let_def)


lemma exWidget_shown:
  "updateScreenCoords ieee32 exEnv (widget 530 164 exProfile 1000) = Some exShown"
proof -
  have r: "legsReadable (elevationLegs (legList (widget 530 164 exProfile 1000)))"
    by (simp add: widget_def exProfile_readable)
  have wx: "map (\<lambda>lg. X0 + toInt (fmul ieee32 (hd (distances lg)) 10)) (elevationLegs exProfile) =
      [65, 165, 265, 365]"
    by (simp add: exProfile_def toInt_def X0_def f32_defs Let_def)
  have pl: "concat (map (\<lambda>lg. thinPoints farOrNull (length (elevation lg)) 0 None
      (legPoints ieee32 10 (13421773 / 134217728) 150 lg)) (elevationLegs exProfile)) =
    [(65, 134), (115, 133), (165, 133), (165, 133), (215, 133), (265, 132), (265, 132),
     (315, 132), (365, 132), (365, 132), (465, 131)]"
    using exProfile_points
    by (simp add: exProfile_def farOrNull_def isNull_def pointDiff_def manhattanLength_def)
  have l: "legList (widget 530 164 exProfile 1000) = exProfile"
    "roundedElevation ieee32 (maxRouteElevation exProfile) = 1500"
    "rectHeight (widget 530 164 exProfile 1000) - Y0 = 150"
    "rectWidth (widget 530 164 exProfile 1000) - X0 * 2 = 400"
    "ofInt ieee32 (cruisingAlt (widget 530 164 exProfile 1000)) = 1000"
    by (simp_all add: widget_def exProfile_def roundedElevation_def X0_def Y0_def f32_defs
        Let_def)
  show ?thesis
    unfolding updateScreenCoords_readable [OF r] exWidget_scales l wx pl
    by (simp add: exShown_def X0_def Y0_def)
qed

lemma exProfile_claimed:
  "claimedPolygon None
     (map (legPoints ieee32 10 (13421773 / 134217728) 150) (elevationLegs exProfile)) =
     [(65, 134), (115, 133), (165, 133), (215, 133), (265, 132), (315, 132), (365, 132),
      (465, 131)]"
  unfolding exProfile_points
  by (simp add: claimedFar_def lastAppended_def pointDiff_def manhattanLength_def)

lemma flatProfile_run: "fetchRouteElevationsThread flatEnv never flatRoute = flatProfile"
  by (simp add: flatEnv_def flatRoute_def flatProfile_def run_defs)

lemma flatProfile_readable: "legsReadable (elevationLegs flatProfile)"
  by (simp add: legsReadable_def flatProfile_def)

lemma hillProfile_readable: "legsReadable (elevationLegs hillProfile)"
  by (simp add: legsReadable_def hillProfile_def)

section \<open>Properties of mouseMoveEvent\<close>

lemma lower_bound_le: "lower_bound xs v \<le> length xs"
  by (simp add: lower_bound_def length_takeWhile_le)

lemma upper_bound_le: "upper_bound xs v \<le> length xs"
  by (simp add: upper_bound_def length_takeWhile_le)

lemma legIndex_range:
  "length wpx = Suc n \<Longrightarrow> 0 < n \<Longrightarrow> 0 \<le> legIndex wpx x \<and> legIndex wpx x < int n"
  using lower_bound_le [of wpx x]
  by (auto simp: legIndex_def Let_def)

lemma boundIndex_sample:
  "it \<le> n \<Longrightarrow> 0 < n \<Longrightarrow>
   0 \<le> boundIndex it n \<and> boundIndex it n < int n \<and> nat (boundIndex it n) = sampleOrFirst it n"
  by (auto simp: boundIndex_def sampleOrFirst_def Let_def)

lemma at_list_Some: "0 \<le> i \<Longrightarrow> i < int (length xs) \<Longrightarrow> at_list xs i = Some (xs ! nat i)"
  by (simp add: at_list_def)

lemma first_Some: "xs \<noteq> [] \<Longrightarrow> first xs = Some (hd xs)"
  by (cases xs) (simp_all add: first_def)

lemma lastOf_Some: "xs \<noteq> [] \<Longrightarrow> lastOf xs = Some (last xs)"
  by (simp add: lastOf_def)

lemma mouseMoveEvent_answer:
  assumes c: "consistentWidget pw" and ne: "elevationLegs (legList pw) \<noteq> []"
  shows "mouseMoveEvent fl env pw mx =
    Some (Answer
      \<lparr>fromIdent = ident (routeMapObjects (legList pw) !
           nat (legIndex (waypointX pw) (clampX pw mx))),
       toIdent = ident (routeMapObjects (legList pw) !
           nat (legIndex (waypointX pw) (clampX pw mx) + 1)),
       queryDistance = queriedDistance fl pw mx,
       groundAltitude =
         fdiv fl \<bar>fadd fl
           (altitude (elevation (queriedLeg pw mx) !
              sampleOrFirst (lower_bound (distances (queriedLeg pw mx)) (queriedDistance fl pw mx))
                (length (distances (queriedLeg pw mx)))))
           (altitude (elevation (queriedLeg pw mx) !
              sampleOrFirst (upper_bound (distances (queriedLeg pw mx)) (queriedDistance fl pw mx))
                (length (distances (queriedLeg pw mx)))))\<bar> 2,
       aboveGroundAltitude = fsub fl (flightplanAltFt pw)
         (fdiv fl \<bar>fadd fl
           (altitude (elevation (queriedLeg pw mx) !
              sampleOrFirst (lower_bound (distances (queriedLeg pw mx)) (queriedDistance fl pw mx))
                (length (distances (queriedLeg pw mx)))))
           (altitude (elevation (queriedLeg pw mx) !
              sampleOrFirst (upper_bound (distances (queriedLeg pw mx)) (queriedDistance fl pw mx))
                (length (distances (queriedLeg pw mx)))))\<bar> 2),
       legSafeAltitude = roundedElevation fl (maxElevation (queriedLeg pw mx)),
       highlightPos = interpolate env (hd (elevation (queriedLeg pw mx)))
         (last (elevation (queriedLeg pw mx)))
         (fdiv fl (fsub fl (queriedDistance fl pw mx) (hd (distances (queriedLeg pw mx))))
            (fsub fl (last (distances (queriedLeg pw mx)))
               (hd (distances (queriedLeg pw mx)))))\<rparr>)"
proof -
  let ?L = "elevationLegs (legList pw)"
  let ?R = "routeMapObjects (legList pw)"
  let ?ix = "legIndex (waypointX pw) (clampX pw mx)"
  let ?lg = "queriedLeg pw mx"
  let ?d = "queriedDistance fl pw mx"
  from c have wl: "length (waypointX pw) = Suc (length ?L)" and rl: "length ?L < length ?R"
    and legs: "\<And>lg. lg \<in> set ?L \<Longrightarrow> elevation lg \<noteq> [] \<and> length (distances lg) = length (elevation lg)"
    by (simp_all add: consistentWidget_def)
  from ne have pos: "0 < length ?L" by simp
  from legIndex_range [OF wl pos] have ix: "0 \<le> ?ix" "?ix < int (length ?L)" by simp_all
  then have a1: "at_list ?L ?ix = Some ?lg"
    by (simp add: at_list_Some queriedLeg_def)
  from ix rl have a2: "at_list ?R ?ix = Some (?R ! nat ?ix)"
    and a3: "at_list ?R (?ix + 1) = Some (?R ! nat (?ix + 1))"
    by (simp_all add: at_list_Some)
  from ix have "?lg \<in> set ?L" by (simp add: queriedLeg_def)
  from legs [OF this] have ene: "elevation ?lg \<noteq> []"
    and len: "length (distances ?lg) = length (elevation ?lg)"
    by simp_all
  then have dne: "distances ?lg \<noteq> []" and n: "0 < length (distances ?lg)" by auto
  note lo = boundIndex_sample [OF lower_bound_le [of "distances ?lg" ?d] n]
  note up = boundIndex_sample [OF upper_bound_le [of "distances ?lg" ?d] n]
  from lo len have b1: "at_list (elevation ?lg)
      (boundIndex (lower_bound (distances ?lg) ?d) (length (distances ?lg))) =
    Some (elevation ?lg ! sampleOrFirst (lower_bound (distances ?lg) ?d) (length (distances ?lg)))"
    by (simp add: at_list_Some)
  from up len have b2: "at_list (elevation ?lg)
      (boundIndex (upper_bound (distances ?lg) ?d) (length (distances ?lg))) =
    Some (elevation ?lg ! sampleOrFirst (upper_bound (distances ?lg) ?d) (length (distances ?lg)))"
    by (simp add: at_list_Some)
  have d: "fdiv fl (ofInt fl (min (max mx X0) (rectWidth pw - X0) - X0)) (horizScale pw) = ?d"
    by (simp add: queriedDistance_def clampX_def)
  have x: "legIndex (waypointX pw) (min (max mx X0) (rectWidth pw - X0)) = ?ix"
    by (simp add: clampX_def)
  show ?thesis
    unfolding mouseMoveEvent_def Let_def x d
    by (simp add: ne a1 a2 a3 b1 b2 first_Some [OF dne] lastOf_Some [OF dne]
        first_Some [OF ene] lastOf_Some [OF ene])
qed

lemma clampX_idem: "clampX pw (clampX pw mx) = clampX pw mx"
  by (simp add: clampX_def min_def max_def)

lemma mouseMoveEvent_clamped:
  "mouseMoveEvent fl env pw mx = mouseMoveEvent fl env pw (clampX pw mx)"
proof -
  have "min (max (clampX pw mx) X0) (rectWidth pw - X0) = min (max mx X0) (rectWidth pw - X0)"
    using clampX_idem [of pw mx] by (simp add: clampX_def)
  then show ?thesis
    by (simp add: mouseMoveEvent_def)
qed

lemma shown_consistent:
  assumes run: "updateFinished fl env False (fetchRouteElevationsThread env never rmos) pw0 = Some pw"
    and ne: "elevationLegs (legList pw) \<noteq> []"
  shows "consistentWidget pw"
proof -
  let ?r = "fetchRouteElevationsThread env never rmos"
  let ?L = "elevationLegs ?r"
  have r: "legsReadable (elevationLegs (legList (pw0\<lparr>legList := ?r\<rparr>)))"
    by (simp add: fetch_readable)
  from run have "updateScreenCoords fl env (pw0\<lparr>legList := ?r\<rparr>) = Some pw"
    by (simp add: updateFinished_def)
  then have pw: "legList pw = ?r" "length (waypointX pw) = Suc (length ?L)"
    unfolding updateScreenCoords_readable [OF r] by auto
  with ne have lne: "?L \<noteq> []" by simp
  from fetch_inv(2,3) [OF never_flag, of env rmos] lne
  have rl: "length ?L < length (routeMapObjects ?r)"
    by (cases ?L) auto
  have legs: "elevation lg \<noteq> [] \<and> length (distances lg) = length (elevation lg)"
    if "lg \<in> set ?L" for lg
  proof -
    from that obtain k where k: "k < length ?L" and lg: "lg = ?L ! k"
      by (auto simp: in_set_conv_nth)
    from fetch_leg_nonempty(1) [OF k] fetch_legBuilt [OF never_flag k] lg
    show ?thesis by (simp add: legBuilt_def)
  qed
  from pw rl legs show ?thesis
    by (simp add: consistentWidget_def)
qed

lemma exShown_consistent: "consistentWidget exShown"
  by (simp add: consistentWidget_def exShown_def widget_def exProfile_def exRoute_def)

lemma exShown_legs: "elevationLegs (legList exShown) \<noteq> []"
  by (simp add: exShown_def widget_def exProfile_def)

lemmas exShown_defs = exShown_def widget_def exProfile_def exRoute_def wp_def exEnv_def

lemma exShown_leg_A:
  "mx \<le> 165 \<Longrightarrow> queriedLeg exShown mx =
     \<lparr>elevation = [\<lparr>lonX = 0, latY = 0, altitude = 300\<rparr>, \<lparr>lonX = 5, latY = 0, altitude = 303\<rparr>,
        \<lparr>lonX = 10, latY = 0, altitude = 306\<rparr>],
      distances = [0, 5, 10], maxElevation = 306\<rparr> \<and>
   legIndex (waypointX exShown) (clampX exShown mx) = 0"
  by (auto simp: queriedLeg_def clampX_def legIndex_def lower_bound_def exShown_defs X0_def
      Let_def)

lemma exShown_leg_D:
  "365 < mx \<Longrightarrow> queriedLeg exShown mx =
     \<lparr>elevation = [\<lparr>lonX = 30, latY = 0, altitude = 318\<rparr>, \<lparr>lonX = 40, latY = 0, altitude = 324\<rparr>],
      distances = [30, 40], maxElevation = 324\<rparr> \<and>
   legIndex (waypointX exShown) (clampX exShown mx) = 3"
  by (auto simp: queriedLeg_def clampX_def legIndex_def lower_bound_def exShown_defs X0_def
      Let_def)

lemma exShown_distance:
  "queriedDistance ieee32 exShown 165 = 10"
  "queriedDistance ieee32 exShown (- 5) = 0"
  "queriedDistance ieee32 exShown 1000 = 40"
  "queriedDistance ieee32 exShown 100 = 7 / 2"
  by (simp_all add: queriedDistance_def clampX_def exShown_defs X0_def f32_defs Let_def)

lemmas answer_defs = lower_bound_def upper_bound_def sampleOrFirst_def roundedElevation_def
  exShown_defs f32_defs Let_def

lemma exShown_query_165:
  "mouseMoveEvent ieee32 exEnv exShown 165 =
     Some (Answer \<lparr>fromIdent = ''A'', toIdent = ''B'', queryDistance = 10,
       groundAltitude = 303, aboveGroundAltitude = 697, legSafeAltitude = 1500,
       highlightPos = \<lparr>lonX = 10, latY = 0, altitude = 300\<rparr>\<rparr>)"
proof -
  have lg: "165 \<le> (165::int)" by simp
  show ?thesis
    unfolding mouseMoveEvent_answer [OF exShown_consistent exShown_legs]
      exShown_leg_A [OF lg, THEN conjunct1] exShown_leg_A [OF lg, THEN conjunct2]
      exShown_distance
    by (simp add: answer_defs)
qed

lemma exShown_query_left:
  "mouseMoveEvent ieee32 exEnv exShown (- 5) =
     Some (Answer \<lparr>fromIdent = ''A'', toIdent = ''B'', queryDistance = 0,
       groundAltitude = 603 / 2, aboveGroundAltitude = 1397 / 2, legSafeAltitude = 1500,
       highlightPos = \<lparr>lonX = 0, latY = 0, altitude = 300\<rparr>\<rparr>)"
proof -
  have lg: "- 5 \<le> (165::int)" by simp
  show ?thesis
    unfolding mouseMoveEvent_answer [OF exShown_consistent exShown_legs]
      exShown_leg_A [OF lg, THEN conjunct1] exShown_leg_A [OF lg, THEN conjunct2]
      exShown_distance
    by (simp add: answer_defs)
qed

lemma exShown_query_right:
  "mouseMoveEvent ieee32 exEnv exShown 1000 =
     Some (Answer \<lparr>fromIdent = ''D'', toIdent = ''E'', queryDistance = 40,
       groundAltitude = 321, aboveGroundAltitude = 679, legSafeAltitude = 1500,
       highlightPos = \<lparr>lonX = 40, latY = 0, altitude = 318\<rparr>\<rparr>)"
proof -
  have lg: "365 < (1000::int)" by simp
  show ?thesis
    unfolding mouseMoveEvent_answer [OF exShown_consistent exShown_legs]
      exShown_leg_D [OF lg, THEN conjunct1] exShown_leg_D [OF lg, THEN conjunct2]
      exShown_distance
    by (simp add: answer_defs)
qed

section \<open>The claims\<close>

subsection \<open>C1: the thinning rule of the leg builder\<close>

text \<open>
  C1, as stated, fails. The claim drops a middle sample of similar altitude as soon as two
  legs are in the list. In \<open>exRoute\<close> the third segment is built with two legs in the list;
  its middle sample (315 ft after 312 ft) is kept, while the claim's rule drops it: the
  source tests \<^verbatim>\<open>legs.elevationLegs.size() > 2\<close>. The source also tests
  \<^verbatim>\<open>lastPos.isValid()\<close>: in \<open>farRoute\<close> the last segment starts at longitude 190, which
  the example's \<open>isValid\<close> rejects, and its middle sample is kept with four legs in the list.
\<close>

theorem thinning_claim_counterexample:
  "map altitude (elevation (elevationLegs (fetchRouteElevationsThread exEnv never exRoute) ! 2)) =
     [312, 315, 318] \<and>
   map altitude (thinSamples (claimedSimilar 2) 3 0 [] (segmentPositions exEnv exRoute 2)) =
     [312, 318] \<and>
   map altitude (elevation (elevationLegs (fetchRouteElevationsThread exEnv never farRoute) ! 4)) =
     [414, 417, 420] \<and>
   map altitude (thinSamples (claimedSimilar 4) 3 0 [] (segmentPositions exEnv farRoute 4)) =
     [414, 420]"
proof -
  have a: "map altitude (elevation (elevationLegs (fetchRouteElevationsThread exEnv never exRoute) ! 2)) =
     [312, 315, 318]"
    by (simp add: exProfile_run exProfile_def)
  have b: "map altitude (thinSamples (claimedSimilar 2) 3 0 [] (segmentPositions exEnv exRoute 2)) =
     [312, 318]"
    by (simp add: segmentPositions_def exRoute_def claimedSimilar_def run_defs)
  have c: "map altitude (thinSamples (claimedSimilar 4) 3 0 [] (segmentPositions exEnv farRoute 4)) =
     [414, 420]"
    by (simp add: segmentPositions_def farRoute_def claimedSimilar_def run_defs)
  from a b c farProfile_leg4 show ?thesis by simp
qed

text \<open>
  C1, amended: in a run that is not cancelled, the positions kept for segment \<open>k\<close> are
  exactly those the thinning rule keeps when "similar" means: more than two legs are in the
  list (\<open>3 \<le> k\<close>), the position kept last is valid, and the altitudes are less than 10 feet
  apart. So a sample is dropped if and only if it is not the first of its segment, not the
  last, at least three legs have been accumulated, the sample kept last is a valid position
  and its altitude differs from the sample's by less than 10 feet.
\<close>

theorem thinning_rule:
  assumes "Suc k < length rmos"
  shows "elevation (elevationLegs (fetchRouteElevationsThread env never rmos) ! k) =
     thinSamples (similarAltitude env k) (length (segmentPositions env rmos k)) 0 []
       (segmentPositions env rmos k)"
proof -
  from assms have "k < length (elevationLegs (fetchRouteElevationsThread env never rmos))"
    using fetch_length by blast
  from fetch_legBuilt [OF never_flag this] show ?thesis
    by (simp add: legBuilt_def)
qed

theorem thinning_rule_witness:
  "Suc 3 < length exRoute \<and>
   elevation (elevationLegs (fetchRouteElevationsThread exEnv never exRoute) ! 3) =
     [\<lparr>lonX = 30, latY = 0, altitude = 318\<rparr>, \<lparr>lonX = 40, latY = 0, altitude = 324\<rparr>]"
proof -
  have h: "Suc 3 < length exRoute" by (simp add: exRoute_def)
  have "thinSamples (similarAltitude exEnv 3) (length (segmentPositions exEnv exRoute 3)) 0 []
       (segmentPositions exEnv exRoute 3) =
     [\<lparr>lonX = 30, latY = 0, altitude = 318\<rparr>, \<lparr>lonX = 40, latY = 0, altitude = 324\<rparr>]"
    by (simp add: segmentPositions_def exRoute_def similarAltitude_def run_defs)
  with thinning_rule [OF h, of exEnv] h show ?thesis by simp
qed

subsection \<open>C2: cancellation\<close>

text \<open>
  C2 holds at the check made for every sample, which returns an empty list, and fails at
  the check made before every leg, which returns \<^verbatim>\<open>legs\<close> with the legs completed so far.
  In \<open>exRoute\<close> the reads of the flag are: read 0 before the first leg, reads 1 to 3 at its
  three samples, read 4 before the second leg, read 5 at the second leg's first sample.
  A flag set just before read 4 gives back a list holding the first leg; a flag set just
  before read 5 gives back the empty list.
\<close>

theorem cancel_between_legs_returns_partial:
  "fetchRouteElevationsThread exEnv (cancelledFrom 4) exRoute =
     \<lparr>routeMapObjects = exRoute,
      elevationLegs =
        [\<lparr>elevation =
            [\<lparr>lonX = 0, latY = 0, altitude = 300\<rparr>,
             \<lparr>lonX = 5, latY = 0, altitude = 303\<rparr>,
             \<lparr>lonX = 10, latY = 0, altitude = 306\<rparr>],
          distances = [0, 5, 10], maxElevation = 306\<rparr>],
      maxRouteElevation = 306, totalDistance = 10, totalNumPoints = 3\<rparr> \<and>
   fetchRouteElevationsThread exEnv (cancelledFrom 4) exRoute \<noteq> emptyLegList \<and>
   fetchRouteElevationsThread exEnv (cancelledFrom 5) exRoute = emptyLegList"
  by (simp add: cancelledFrom_def emptyLegList_def exRoute_def run_defs)

subsection \<open>C3: the thinning rule of the polygon\<close>

text \<open>
  C3, as stated, fails. \<^verbatim>\<open>lastPt\<close> is declared inside the loop over the legs, so the first
  point of every leg is appended, not only the first point overall. For \<open>exProfile\<close> in a
  widget of 530 by 164 pixels, in single precision, the source appends (165, 133) twice:
  as the last point of the first leg and again as the first point of the second leg,
  which is not the first point overall, not the last point of its leg and at distance 0
  from the point appended last; likewise (265, 132) and (365, 132). The claim's rule gives
  8 sample points, the source 11. (The first and the last element of the polygon are the
  two corner points that the function adds itself.)
\<close>

theorem polygon_claim_counterexample:
  "map_option poly (updateScreenCoords ieee32 exEnv (widget 530 164 exProfile 1000)) =
     Some [(65, 164), (65, 134), (115, 133), (165, 133), (165, 133), (215, 133), (265, 132),
           (265, 132), (315, 132), (365, 132), (365, 132), (465, 131), (465, 164)] \<and>
   horizScaleOf ieee32 (widget 530 164 exProfile 1000) = 10 \<and>
   vertScaleOf ieee32 exEnv (widget 530 164 exProfile 1000) = 13421773 / 134217728 \<and>
   claimedPolygon None
     (map (legPoints ieee32 10 (13421773 / 134217728) 150) (elevationLegs exProfile)) =
     [(65, 134), (115, 133), (165, 133), (215, 133), (265, 132), (315, 132), (365, 132),
      (465, 131)]"
  using exWidget_shown exWidget_scales(1,2) exProfile_claimed
  by (simp add: exShown_def)

text \<open>
  C3, amended: for a profile the projection can read, with a total distance and an axis
  top that are not zero when there are legs (the scales are quotients by them), and with
  no sample drawn at the null point (0, 0), the polygon is the lower left corner, then
  for every leg in turn the points that the rule appends, then the lower right corner,
  where a point of a leg is appended if and only if no point of its leg has been appended
  yet (it is the first point of its leg), or it is the last point of its leg, or its
  Manhattan distance from the point appended last for its leg exceeds 2 pixels. This
  holds whatever the rounding of the float operations is. (The source recognises "no
  point appended yet" by \<^verbatim>\<open>lastPt.isNull()\<close>, which is also true after a sample drawn at
  (0, 0); the amended claim says nothing about profiles with such a sample.)
\<close>

theorem silhouette_polygon:
  assumes "legsReadable (elevationLegs (legList pw))"
    and "elevationLegs (legList pw) \<noteq> [] \<Longrightarrow>
      totalDistance (legList pw) \<noteq> 0 \<and> topAltitude fl env pw \<noteq> 0"
    and "\<forall>lg \<in> set (elevationLegs (legList pw)).
      \<forall>p \<in> set (legPoints fl (horizScaleOf fl pw) (vertScaleOf fl env pw)
                   (rectHeight pw - Y0) lg). \<not> isNull p"
  shows "\<exists>pw'. updateScreenCoords fl env pw = Some pw' \<and>
    horizScale pw' = horizScaleOf fl pw \<and> vertScale pw' = vertScaleOf fl env pw \<and>
    poly pw' =
      ((X0, rectHeight pw - Y0 + Y0) #
       concat (map (\<lambda>lg. thinPoints claimedFar (length (elevation lg)) 0 None
                 (legPoints fl (horizScale pw') (vertScale pw') (rectHeight pw - Y0) lg))
               (elevationLegs (legList pw)))) @
      [(X0 + (rectWidth pw - X0 * 2), rectHeight pw - Y0 + Y0)]"
proof -
  have "map (\<lambda>lg. thinPoints farOrNull (length (elevation lg)) 0 None
            (legPoints fl (horizScaleOf fl pw) (vertScaleOf fl env pw) (rectHeight pw - Y0) lg))
          (elevationLegs (legList pw)) =
        map (\<lambda>lg. thinPoints claimedFar (length (elevation lg)) 0 None
            (legPoints fl (horizScaleOf fl pw) (vertScaleOf fl env pw) (rectHeight pw - Y0) lg))
          (elevationLegs (legList pw))"
  proof (rule map_cong [OF refl])
    fix lg assume "lg \<in> set (elevationLegs (legList pw))"
    with assms(3)
    have "\<forall>p \<in> set (legPoints fl (horizScaleOf fl pw) (vertScaleOf fl env pw)
        (rectHeight pw - Y0) lg). \<not> isNull p"
      by blast
    then show "thinPoints farOrNull (length (elevation lg)) 0 None
        (legPoints fl (horizScaleOf fl pw) (vertScaleOf fl env pw) (rectHeight pw - Y0) lg) =
      thinPoints claimedFar (length (elevation lg)) 0 None
        (legPoints fl (horizScaleOf fl pw) (vertScaleOf fl env pw) (rectHeight pw - Y0) lg)"
      by (rule thinPoints_no_null) simp
  qed
  then have "concat (map (\<lambda>lg. thinPoints farOrNull (length (elevation lg)) 0 None
            (legPoints fl (horizScaleOf fl pw) (vertScaleOf fl env pw) (rectHeight pw - Y0) lg))
          (elevationLegs (legList pw))) =
        concat (map (\<lambda>lg. thinPoints claimedFar (length (elevation lg)) 0 None
            (legPoints fl (horizScaleOf fl pw) (vertScaleOf fl env pw) (rectHeight pw - Y0) lg))
          (elevationLegs (legList pw)))"
    by (simp only:)
  then show ?thesis
    unfolding updateScreenCoords_readable [OF assms(1)]
    by simp
qed

theorem silhouette_polygon_witness:
  "legsReadable (elevationLegs (legList (widget 530 164 exProfile 1000))) \<and>
   totalDistance (legList (widget 530 164 exProfile 1000)) \<noteq> 0 \<and>
   topAltitude ieee32 exEnv (widget 530 164 exProfile 1000) \<noteq> 0 \<and>
   map (legPoints ieee32 (horizScaleOf ieee32 (widget 530 164 exProfile 1000))
          (vertScaleOf ieee32 exEnv (widget 530 164 exProfile 1000))
          (rectHeight (widget 530 164 exProfile 1000) - Y0))
     (elevationLegs (legList (widget 530 164 exProfile 1000))) =
     [[(65, 134), (115, 133), (165, 133)], [(165, 133), (215, 133), (265, 132)],
      [(265, 132), (315, 132), (365, 132)], [(365, 132), (465, 131)]] \<and>
   updateScreenCoords ieee32 exEnv (widget 530 164 exProfile 1000) = Some exShown \<and>
   poly exShown =
     ((X0, rectHeight (widget 530 164 exProfile 1000) - Y0 + Y0) #
      concat (map (\<lambda>lg. thinPoints claimedFar (length (elevation lg)) 0 None
                (legPoints ieee32 (horizScale exShown) (vertScale exShown)
                   (rectHeight (widget 530 164 exProfile 1000) - Y0) lg))
              (elevationLegs (legList (widget 530 164 exProfile 1000))))) @
     [(X0 + (rectWidth (widget 530 164 exProfile 1000) - X0 * 2),
       rectHeight (widget 530 164 exProfile 1000) - Y0 + Y0)]"
proof -
  have r: "legsReadable (elevationLegs (legList (widget 530 164 exProfile 1000)))"
    by (simp add: widget_def exProfile_readable)
  have z: "totalDistance (legList (widget 530 164 exProfile 1000)) \<noteq> 0 \<and>
      topAltitude ieee32 exEnv (widget 530 164 exProfile 1000) \<noteq> 0"
    by (simp add: exWidget_scales) (simp add: widget_def exProfile_def)
  have h: "rectHeight (widget 530 164 exProfile 1000) - Y0 = 150"
    by (simp add: widget_def Y0_def)
  have pts: "\<forall>ps \<in> set (map (legPoints ieee32 10 (13421773 / 134217728) 150)
      (elevationLegs exProfile)). \<forall>p \<in> set ps. \<not> isNull p"
    unfolding exProfile_points by (simp add: isNull_def)
  have n: "\<forall>lg \<in> set (elevationLegs (legList (widget 530 164 exProfile 1000))).
      \<forall>p \<in> set (legPoints ieee32 (horizScaleOf ieee32 (widget 530 164 exProfile 1000))
                   (vertScaleOf ieee32 exEnv (widget 530 164 exProfile 1000))
                   (rectHeight (widget 530 164 exProfile 1000) - Y0) lg). \<not> isNull p"
    unfolding exWidget_scales h using pts by (simp add: widget_def)
  have pl: "map (legPoints ieee32 (horizScaleOf ieee32 (widget 530 164 exProfile 1000))
          (vertScaleOf ieee32 exEnv (widget 530 164 exProfile 1000))
          (rectHeight (widget 530 164 exProfile 1000) - Y0))
     (elevationLegs (legList (widget 530 164 exProfile 1000))) =
     [[(65, 134), (115, 133), (165, 133)], [(165, 133), (215, 133), (265, 132)],
      [(265, 132), (315, 132), (365, 132)], [(365, 132), (465, 131)]]"
    unfolding exWidget_scales h using exProfile_points by (simp add: widget_def)
  from silhouette_polygon [OF r z n] exWidget_shown
  have "poly exShown =
     ((X0, rectHeight (widget 530 164 exProfile 1000) - Y0 + Y0) #
      concat (map (\<lambda>lg. thinPoints claimedFar (length (elevation lg)) 0 None
                (legPoints ieee32 (horizScale exShown) (vertScale exShown)
                   (rectHeight (widget 530 164 exProfile 1000) - Y0) lg))
              (elevationLegs (legList (widget 530 164 exProfile 1000))))) @
     [(X0 + (rectWidth (widget 530 164 exProfile 1000) - X0 * 2),
       rectHeight (widget 530 164 exProfile 1000) - Y0 + Y0)]"
    by simp
  with r z pl exWidget_shown show ?thesis
    by (simp only: simp_thms)
qed

subsection \<open>C4: the ground altitude of a query\<close>

text \<open>
  C4, as stated, fails. In the widget \<open>exShown\<close> the query at x = 165 finds the first leg
  (distances 0, 5, 10; altitudes 300, 303, 306) and asks for distance 10. The lower bound
  is index 2; the upper bound is 3, the end of the sequence, where there is no sample.
  The source then reads index 0 (lines 520-528) and reports |306 + 300| / 2 = 303.
\<close>

theorem ground_altitude_claim_counterexample:
  "mouseMoveEvent ieee32 exEnv exShown 165 =
     Some (Answer \<lparr>fromIdent = ''A'', toIdent = ''B'', queryDistance = 10,
       groundAltitude = 303, aboveGroundAltitude = 697, legSafeAltitude = 1500,
       highlightPos = \<lparr>lonX = 10, latY = 0, altitude = 300\<rparr>\<rparr>) \<and>
   distances (queriedLeg exShown 165) = [0, 5, 10] \<and>
   map altitude (elevation (queriedLeg exShown 165)) = [300, 303, 306] \<and>
   queriedDistance ieee32 exShown 165 = 10 \<and>
   lower_bound (distances (queriedLeg exShown 165)) 10 = 2 \<and>
   upper_bound (distances (queriedLeg exShown 165)) 10 = 3 \<and>
   claimedGroundAltitude ieee32 (queriedLeg exShown 165) 10 = None"
proof -
  have le: "165 \<le> (165::int)" by simp
  show ?thesis
    unfolding exShown_leg_A [OF le, THEN conjunct1]
    using exShown_query_165 exShown_distance(1)
    by (simp add: claimedGroundAltitude_def lower_bound_def upper_bound_def)
qed

text \<open>
  C4, amended: for every query over a profile that is not empty, in a widget whose
  projection belongs to its profile and whose horizontal scale is not zero (the query
  distance is a quotient by it), and for which the lower-bound and the upper-bound index
  of the query distance are indices of samples of the located leg (neither search ends
  at the end of the leg's distance sequence), the reported ground altitude is
  |alt1 + alt2| / 2 in float arithmetic, where alt1 and alt2 are the altitudes of the
  leg's samples at these two indices. This holds whatever the rounding of the float
  operations is. (When a search ends at the end of the sequence the source reads the
  leg's first sample; the amended claim says nothing about such queries.)
\<close>

theorem ground_altitude:
  assumes "consistentWidget pw" and "elevationLegs (legList pw) \<noteq> []"
    and "horizScale pw \<noteq> 0"
    and "lower_bound (distances (queriedLeg pw mx)) (queriedDistance fl pw mx) <
      length (distances (queriedLeg pw mx))"
    and "upper_bound (distances (queriedLeg pw mx)) (queriedDistance fl pw mx) <
      length (distances (queriedLeg pw mx))"
  shows "\<exists>a. mouseMoveEvent fl env pw mx = Some (Answer a) \<and>
    groundAltitude a =
      fdiv fl \<bar>fadd fl
        (altitude (elevation (queriedLeg pw mx) !
           lower_bound (distances (queriedLeg pw mx)) (queriedDistance fl pw mx)))
        (altitude (elevation (queriedLeg pw mx) !
           upper_bound (distances (queriedLeg pw mx)) (queriedDistance fl pw mx)))\<bar> 2"
  using assms(4,5)
  by (simp add: mouseMoveEvent_answer [OF assms(1,2)] sampleOrFirst_def)

theorem ground_altitude_witness:
  "consistentWidget exShown \<and> elevationLegs (legList exShown) \<noteq> [] \<and>
   horizScale exShown \<noteq> 0 \<and> queriedDistance ieee32 exShown 100 = 7 / 2 \<and>
   lower_bound (distances (queriedLeg exShown 100)) (7 / 2) = 1 \<and>
   upper_bound (distances (queriedLeg exShown 100)) (7 / 2) = 1 \<and>
   length (distances (queriedLeg exShown 100)) = 3 \<and>
   (\<exists>a. mouseMoveEvent ieee32 exEnv exShown 100 = Some (Answer a) \<and> groundAltitude a = 303)"
proof -
  have le: "100 \<le> (165::int)" by simp
  note lg = exShown_leg_A [OF le, THEN conjunct1]
  note d = exShown_distance(4)
  have hs: "horizScale exShown \<noteq> 0"
    by (simp add: exShown_def widget_def)
  have lo: "lower_bound (distances (queriedLeg exShown 100)) (7 / 2) = 1"
    and up: "upper_bound (distances (queriedLeg exShown 100)) (7 / 2) = 1"
    and n: "length (distances (queriedLeg exShown 100)) = 3"
    unfolding lg by (simp_all add: lower_bound_def upper_bound_def)
  have lo': "lower_bound (distances (queriedLeg exShown 100)) (queriedDistance ieee32 exShown 100) <
      length (distances (queriedLeg exShown 100))"
    and up': "upper_bound (distances (queriedLeg exShown 100)) (queriedDistance ieee32 exShown 100) <
      length (distances (queriedLeg exShown 100))"
    unfolding d lo up n by simp_all
  from ground_altitude [OF exShown_consistent exShown_legs hs lo' up', of exEnv]
  have "\<exists>a. mouseMoveEvent ieee32 exEnv exShown 100 = Some (Answer a) \<and> groundAltitude a = 303"
    unfolding d lo up unfolding lg
    by (simp add: f32_defs Let_def)
  with exShown_consistent exShown_legs hs d lo up n show ?thesis by blast
qed

subsection \<open>C5: the reference altitude and the top of the altitude axis\<close>

text \<open>
  C5, as stated, fails in two places. The aircraft's altitude counts only when, besides
  the position being valid and the map showing aircraft, the flight plan is not empty
  (line 144): in \<open>emptyPlanWidget\<close> the aircraft is valid and shown at 2000 ft, the flight
  plan is empty, and the top of the axis is 1500, the reference altitude. And the
  reference altitude is computed in float arithmetic, where every operation rounds: for
  a maximum elevation of \<open>500 + 2 ^ (- 15)\<close> ft the sum with 1000 rounds to 1500, the
  quotient is 3 and the reference altitude 1500, while the formula over the real numbers
  gives 2000.
\<close>

theorem axis_top_claim_counterexample:
  "isValid exEnv (simPosition emptyPlanWidget) \<and> aircraftShown emptyPlanWidget \<and>
   altitude (simPosition emptyPlanWidget) = 2000 \<and>
   map_option maxHeight (updateScreenCoords ieee32 exEnv emptyPlanWidget) = Some 1500 \<and>
   map_option maxRouteElevationFt
     (updateScreenCoords ieee32 exEnv (widget 530 164 hillProfile 1000)) = Some 1500 \<and>
   real_of_int \<lceil>(maxRouteElevation hillProfile + 1000) / 500\<rceil> * 500 = 2000"
proof -
  have r1: "legsReadable (elevationLegs (legList emptyPlanWidget))"
    by (simp add: emptyPlanWidget_def aircraftWidget_def widget_def exProfile_readable)
  have r2: "legsReadable (elevationLegs (legList (widget 530 164 hillProfile 1000)))"
    by (simp add: widget_def hillProfile_readable)
  have a: "isValid exEnv (simPosition emptyPlanWidget) \<and> aircraftShown emptyPlanWidget \<and>
      altitude (simPosition emptyPlanWidget) = 2000"
    by (simp add: emptyPlanWidget_def aircraftWidget_def widget_def exEnv_def)
  have b: "topAltitude ieee32 exEnv emptyPlanWidget = 1500"
    by (simp add: topAltitude_def roundedElevation_def emptyPlanWidget_def aircraftWidget_def
        widget_def exProfile_def f32_defs Let_def)
  have c: "roundedElevation ieee32 (maxRouteElevation (legList (widget 530 164 hillProfile 1000))) =
      1500"
    by (simp add: roundedElevation_def widget_def hillProfile_def f32_defs Let_def)
  have d: "real_of_int \<lceil>(maxRouteElevation hillProfile + 1000) / 500\<rceil> * 500 = 2000"
  proof -
    have "\<lceil>(maxRouteElevation hillProfile + 1000) / 500\<rceil> = (4::int)"
      by (simp add: hillProfile_def ceiling_eq_iff)
    then show ?thesis by simp
  qed
  from a b c d show ?thesis
    by (simp add: updateScreenCoords_readable [OF r1] updateScreenCoords_readable [OF r2])
qed

text \<open>
  C5, amended: for a profile the projection can read, the reference altitude is
  \<open>ceil ((maxRouteElevation + 1000) / 500) * 500\<close> computed in float arithmetic (the sum,
  the quotient and the product are float operations), and the top of the altitude axis is
  the maximum of the reference altitude, the cruise altitude and, when the aircraft
  position is valid, the map shows aircraft and the flight plan is not empty, the
  aircraft's altitude. This holds whatever the rounding of the float operations is. Both
  altitudes are computed before the scales and do not depend on them. In particular, in
  single precision, the route of two objects over flat terrain at 0 ft with a cruise
  altitude of 10000 ft has one leg, maximum elevation 0, reference altitude 1000 and axis
  top 10000.
\<close>

theorem top_of_altitude_axis:
  "(legsReadable (elevationLegs (legList pw)) \<longrightarrow>
     (\<exists>pw'. updateScreenCoords fl env pw = Some pw' \<and>
        maxRouteElevationFt pw' =
          fmul fl (real_of_int \<lceil>fdiv fl (fadd fl (maxRouteElevation (legList pw)) 1000) 500\<rceil>)
            500 \<and>
        maxHeight pw' =
          (if isValid env (simPosition pw) \<and> aircraftShown pw \<and> \<not> flightplanEmpty pw
           then max (max (maxRouteElevationFt pw') (ofInt fl (cruisingAlt pw)))
                    (altitude (simPosition pw))
           else max (maxRouteElevationFt pw') (ofInt fl (cruisingAlt pw))))) \<and>
   length (elevationLegs (fetchRouteElevationsThread flatEnv never flatRoute)) = 1 \<and>
   maxRouteElevation (fetchRouteElevationsThread flatEnv never flatRoute) = 0 \<and>
   (\<exists>pw'. updateScreenCoords ieee32 exEnv
        (widget 530 164 (fetchRouteElevationsThread flatEnv never flatRoute) 10000) = Some pw' \<and>
      maxRouteElevationFt pw' = 1000 \<and> maxHeight pw' = 10000)"
proof -
  have general: "legsReadable (elevationLegs (legList pw)) \<longrightarrow>
     (\<exists>pw'. updateScreenCoords fl env pw = Some pw' \<and>
        maxRouteElevationFt pw' =
          fmul fl (real_of_int \<lceil>fdiv fl (fadd fl (maxRouteElevation (legList pw)) 1000) 500\<rceil>)
            500 \<and>
        maxHeight pw' =
          (if isValid env (simPosition pw) \<and> aircraftShown pw \<and> \<not> flightplanEmpty pw
           then max (max (maxRouteElevationFt pw') (ofInt fl (cruisingAlt pw)))
                    (altitude (simPosition pw))
           else max (maxRouteElevationFt pw') (ofInt fl (cruisingAlt pw))))"
  proof
    assume r: "legsReadable (elevationLegs (legList pw))"
    show "\<exists>pw'. updateScreenCoords fl env pw = Some pw' \<and>
        maxRouteElevationFt pw' =
          fmul fl (real_of_int \<lceil>fdiv fl (fadd fl (maxRouteElevation (legList pw)) 1000) 500\<rceil>)
            500 \<and>
        maxHeight pw' =
          (if isValid env (simPosition pw) \<and> aircraftShown pw \<and> \<not> flightplanEmpty pw
           then max (max (maxRouteElevationFt pw') (ofInt fl (cruisingAlt pw)))
                    (altitude (simPosition pw))
           else max (maxRouteElevationFt pw') (ofInt fl (cruisingAlt pw)))"
      by (simp add: updateScreenCoords_readable [OF r] topAltitude_def roundedElevation_def
          Let_def)
  qed
  have r: "legsReadable (elevationLegs (legList (widget 530 164 flatProfile 10000)))"
    by (simp add: widget_def flatProfile_readable)
  have ref: "roundedElevation ieee32 (maxRouteElevation (legList (widget 530 164 flatProfile 10000))) =
      1000"
    by (simp add: roundedElevation_def widget_def flatProfile_def f32_defs Let_def)
  have top: "topAltitude ieee32 exEnv (widget 530 164 flatProfile 10000) = 10000"
    by (simp add: topAltitude_def roundedElevation_def widget_def flatProfile_def exEnv_def
        f32_defs Let_def)
  have example: "\<exists>pw'. updateScreenCoords ieee32 exEnv (widget 530 164 flatProfile 10000) = Some pw' \<and>
      maxRouteElevationFt pw' = 1000 \<and> maxHeight pw' = 10000"
    by (simp add: updateScreenCoords_readable [OF r] ref top)
  from general example show ?thesis
    by (simp add: flatProfile_run) (simp add: flatProfile_def)
qed

theorem top_of_altitude_axis_witness:
  "legsReadable (elevationLegs (legList aircraftWidget)) \<and>
   (\<exists>pw'. updateScreenCoords ieee32 exEnv aircraftWidget = Some pw' \<and>
      maxRouteElevationFt pw' = 1500 \<and> maxHeight pw' = 2000)"
proof -
  have r: "legsReadable (elevationLegs (legList aircraftWidget))"
    by (simp add: aircraftWidget_def widget_def exProfile_readable)
  have v: "isValid exEnv (simPosition aircraftWidget) \<and> aircraftShown aircraftWidget \<and>
      \<not> flightplanEmpty aircraftWidget"
    by (simp add: aircraftWidget_def widget_def exEnv_def)
  have m: "fmul ieee32 (real_of_int
      \<lceil>fdiv ieee32 (fadd ieee32 (maxRouteElevation (legList aircraftWidget)) 1000) 500\<rceil>) 500 = 1500"
    by (simp add: aircraftWidget_def widget_def exProfile_def f32_defs Let_def)
  have c: "ofInt ieee32 (cruisingAlt aircraftWidget) = 1000"
    "altitude (simPosition aircraftWidget) = 2000"
    by (simp_all add: aircraftWidget_def widget_def f32_defs Let_def)
  from top_of_altitude_axis [of aircraftWidget ieee32 exEnv] r
  obtain pw' where run: "updateScreenCoords ieee32 exEnv aircraftWidget = Some pw'"
    and ref: "maxRouteElevationFt pw' = fmul ieee32 (real_of_int
      \<lceil>fdiv ieee32 (fadd ieee32 (maxRouteElevation (legList aircraftWidget)) 1000) 500\<rceil>) 500"
    and top: "maxHeight pw' =
          (if isValid exEnv (simPosition aircraftWidget) \<and> aircraftShown aircraftWidget \<and>
              \<not> flightplanEmpty aircraftWidget
           then max (max (maxRouteElevationFt pw') (ofInt ieee32 (cruisingAlt aircraftWidget)))
                    (altitude (simPosition aircraftWidget))
           else max (maxRouteElevationFt pw') (ofInt ieee32 (cruisingAlt aircraftWidget)))"
    by blast
  from ref m have ref': "maxRouteElevationFt pw' = 1500" by simp
  from top v have "maxHeight pw' = max (max (maxRouteElevationFt pw')
      (ofInt ieee32 (cruisingAlt aircraftWidget))) (altitude (simPosition aircraftWidget))"
    by (simp only: if_True simp_thms)
  with ref' c have "maxHeight pw' = 2000" by simp
  with r run ref' show ?thesis by blast
qed

subsection \<open>C6: queries on an empty profile and outside the drawing\<close>

text \<open>
  C6, as stated, fails for a query outside the drawing: the source clamps x into
  [X0, width - X0] (lines 489-490) and answers. In \<open>exShown\<close> the queries at x = -5 and at
  x = 1000 are answered as the queries at x = 65 and at x = 465 are.
\<close>

theorem query_refusal_claim_counterexample:
  "- 5 < X0 \<and>
   mouseMoveEvent ieee32 exEnv exShown (- 5) =
     Some (Answer \<lparr>fromIdent = ''A'', toIdent = ''B'', queryDistance = 0,
       groundAltitude = 603 / 2, aboveGroundAltitude = 1397 / 2, legSafeAltitude = 1500,
       highlightPos = \<lparr>lonX = 0, latY = 0, altitude = 300\<rparr>\<rparr>) \<and>
   rectWidth exShown - X0 < 1000 \<and>
   mouseMoveEvent ieee32 exEnv exShown 1000 =
     Some (Answer \<lparr>fromIdent = ''D'', toIdent = ''E'', queryDistance = 40,
       groundAltitude = 321, aboveGroundAltitude = 679, legSafeAltitude = 1500,
       highlightPos = \<lparr>lonX = 40, latY = 0, altitude = 318\<rparr>\<rparr>)"
  using exShown_query_left exShown_query_right
  by (simp add: X0_def exShown_def widget_def)

text \<open>
  C6, amended: a query on an empty profile returns without an answer; a query at any x,
  inside the drawing or not, is the query at x clamped into [X0, width - X0]; and in a
  widget whose projection belongs to its profile, as updateFinished leaves it after a run
  that was not cancelled, every query on a profile that is not empty is answered, with no
  read outside the leg, distance, position or route object sequences (a read outside is
  \<open>None\<close> in the model). The indices read are inside the sequences whatever the query
  distance is, so this holds whatever the float operations return.
\<close>

theorem query_refusal:
  "(elevationLegs (legList pw) = [] \<longrightarrow> mouseMoveEvent fl env pw mx = Some NoResult) \<and>
   mouseMoveEvent fl env pw mx = mouseMoveEvent fl env pw (clampX pw mx) \<and>
   (consistentWidget pw \<and> elevationLegs (legList pw) \<noteq> [] \<longrightarrow>
      (\<exists>a. mouseMoveEvent fl env pw mx = Some (Answer a))) \<and>
   (updateFinished fl env False (fetchRouteElevationsThread env never rmos) pw0 = Some pw \<and>
      elevationLegs (legList pw) \<noteq> [] \<longrightarrow> consistentWidget pw)"
proof -
  have a: "elevationLegs (legList pw) = [] \<longrightarrow> mouseMoveEvent fl env pw mx = Some NoResult"
    by (simp add: mouseMoveEvent_def)
  have b: "mouseMoveEvent fl env pw mx = mouseMoveEvent fl env pw (clampX pw mx)"
    by (rule mouseMoveEvent_clamped)
  have c: "consistentWidget pw \<and> elevationLegs (legList pw) \<noteq> [] \<longrightarrow>
      (\<exists>a. mouseMoveEvent fl env pw mx = Some (Answer a))"
    using mouseMoveEvent_answer [of pw fl env mx] by blast
  have d: "updateFinished fl env False (fetchRouteElevationsThread env never rmos) pw0 = Some pw \<and>
      elevationLegs (legList pw) \<noteq> [] \<longrightarrow> consistentWidget pw"
    using shown_consistent by blast
  from a b c d show ?thesis by blast
qed

theorem query_refusal_witness:
  "elevationLegs (legList (widget 530 164 emptyLegList 1000)) = [] \<and>
   mouseMoveEvent ieee32 exEnv (widget 530 164 emptyLegList 1000) 100 = Some NoResult \<and>
   updateFinished ieee32 exEnv False (fetchRouteElevationsThread exEnv never exRoute)
     (widget 530 164 emptyLegList 1000) = Some exShown \<and>
   elevationLegs (legList exShown) \<noteq> [] \<and> consistentWidget exShown \<and>
   clampX exShown (- 5) = 65 \<and>
   mouseMoveEvent ieee32 exEnv exShown (- 5) = mouseMoveEvent ieee32 exEnv exShown 65 \<and>
   (\<exists>a. mouseMoveEvent ieee32 exEnv exShown (- 5) = Some (Answer a))"
proof -
  have e: "elevationLegs (legList (widget 530 164 emptyLegList 1000)) = []"
    by (simp add: widget_def emptyLegList_def)
  have u: "updateFinished ieee32 exEnv False (fetchRouteElevationsThread exEnv never exRoute)
     (widget 530 164 emptyLegList 1000) = Some exShown"
    using exWidget_shown by (simp add: updateFinished_def exProfile_run widget_def)
  have cl: "clampX exShown (- 5) = 65"
    by (simp add: clampX_def X0_def exShown_def widget_def)
  from query_refusal [of "widget 530 164 emptyLegList 1000" ieee32 exEnv 100] e
  have n: "mouseMoveEvent ieee32 exEnv (widget 530 164 emptyLegList 1000) 100 = Some NoResult"
    by blast
  from query_refusal [of exShown ieee32 exEnv "- 5" exRoute "widget 530 164 emptyLegList 1000"]
    u exShown_legs
  have "consistentWidget exShown"
    and "mouseMoveEvent ieee32 exEnv exShown (- 5) =
      mouseMoveEvent ieee32 exEnv exShown (clampX exShown (- 5))"
    and "\<exists>a. mouseMoveEvent ieee32 exEnv exShown (- 5) = Some (Answer a)"
    by blast+
  with e n u exShown_legs cl show ?thesis by simp
qed

subsection \<open>C7: the sequences of a leg\<close>

text \<open>
  C7: in a run that is not cancelled, every leg has as many distances as positions, its
  distances are non-decreasing, and the first and the last sample of its segment are kept
  whatever the thinning does. The distances are non-decreasing because the distance
  between two positions, which the atools library computes, is never negative; that is the
  theorem's first assumption.
\<close>

theorem leg_sequences_wellformed:
  assumes "\<forall>a b. 0 \<le> meterToNm env (distanceMeterTo env a b)"
    and "Suc k < length rmos"
  shows "length (elevation (elevationLegs (fetchRouteElevationsThread env never rmos) ! k)) =
      length (distances (elevationLegs (fetchRouteElevationsThread env never rmos) ! k)) \<and>
    sorted (distances (elevationLegs (fetchRouteElevationsThread env never rmos) ! k)) \<and>
    segmentPositions env rmos k \<noteq> [] \<and>
    elevation (elevationLegs (fetchRouteElevationsThread env never rmos) ! k) \<noteq> [] \<and>
    hd (elevation (elevationLegs (fetchRouteElevationsThread env never rmos) ! k)) =
      hd (segmentPositions env rmos k) \<and>
    last (elevation (elevationLegs (fetchRouteElevationsThread env never rmos) ! k)) =
      last (segmentPositions env rmos k)"
proof -
  let ?L = "elevationLegs (fetchRouteElevationsThread env never rmos)"
  let ?ps = "segmentPositions env rmos k"
  from assms(2) have k: "k < length ?L"
    using fetch_length by blast
  from fetch_legBuilt [OF never_flag k]
  have el: "elevation (?L ! k) = thinSamples (similarAltitude env k) (length ?ps) 0 [] ?ps"
    and len: "length (distances (?L ! k)) = length (elevation (?L ! k))"
    by (simp_all add: legBuilt_def)
  have ne: "?ps \<noteq> []" by (rule segmentPositions_nonempty)
  from k have "?L ! k \<in> set ?L" by simp
  with fetch_sorted [OF never_flag assms(1), of rmos]
  have srt: "sorted (distances (?L ! k))" by blast
  have h: "hd (elevation (?L ! k)) = hd ?ps"
    using el ne by (simp add: thinSamples_hd)
  have l: "last (elevation (?L ! k)) = last ?ps"
    using el ne by (simp add: thinSamples_last)
  from len srt ne fetch_leg_nonempty(1) [OF k] h l show ?thesis by simp
qed

theorem leg_sequences_wellformed_witness:
  "(\<forall>a b. 0 \<le> meterToNm exEnv (distanceMeterTo exEnv a b)) \<and> Suc 3 < length exRoute \<and>
   sorted (distances (elevationLegs (fetchRouteElevationsThread exEnv never exRoute) ! 3)) \<and>
   hd (elevation (elevationLegs (fetchRouteElevationsThread exEnv never exRoute) ! 3)) =
     \<lparr>lonX = 30, latY = 0, altitude = 318\<rparr> \<and>
   last (elevation (elevationLegs (fetchRouteElevationsThread exEnv never exRoute) ! 3)) =
     \<lparr>lonX = 40, latY = 0, altitude = 324\<rparr>"
proof -
  have h: "Suc 3 < length exRoute" by (simp add: exRoute_def)
  have ps: "segmentPositions exEnv exRoute 3 =
     [\<lparr>lonX = 30, latY = 0, altitude = 318\<rparr>, \<lparr>lonX = 35, latY = 0, altitude = 321\<rparr>,
      \<lparr>lonX = 40, latY = 0, altitude = 324\<rparr>]"
    by (simp add: segmentPositions_def exRoute_def run_defs)
  from leg_sequences_wellformed [OF exEnv_nonneg h] exEnv_nonneg h show ?thesis
    by (simp add: ps)
qed

subsection \<open>C8: the totals of the list\<close>

text \<open>
  C8: in a run that is not cancelled, a route of at least one object gives one leg less
  than it has objects; the total distance is the sum over the legs of the last distance
  minus the first; the route's maximum elevation is the maximum of the legs' maxima; and a
  route of no or one object gives no leg and totals of zero. (A length is never negative,
  so "length of the route minus one" is read for a route that is not empty; the empty
  route is covered by the last part.)
\<close>

theorem profile_totals:
  "(rmos \<noteq> [] \<longrightarrow>
      int (length (elevationLegs (fetchRouteElevationsThread env never rmos))) =
        int (length rmos) - 1) \<and>
   (\<forall>lg \<in> set (elevationLegs (fetchRouteElevationsThread env never rmos)). distances lg \<noteq> []) \<and>
   totalDistance (fetchRouteElevationsThread env never rmos) =
     (\<Sum>lg\<leftarrow>elevationLegs (fetchRouteElevationsThread env never rmos).
        last (distances lg) - hd (distances lg)) \<and>
   (elevationLegs (fetchRouteElevationsThread env never rmos) \<noteq> [] \<longrightarrow>
      maxRouteElevation (fetchRouteElevationsThread env never rmos) =
        Max (maxElevation ` set (elevationLegs (fetchRouteElevationsThread env never rmos)))) \<and>
   (length rmos \<le> 1 \<longrightarrow>
      elevationLegs (fetchRouteElevationsThread env never rmos) = [] \<and>
      totalDistance (fetchRouteElevationsThread env never rmos) = 0 \<and>
      maxRouteElevation (fetchRouteElevationsThread env never rmos) = 0 \<and>
      totalNumPoints (fetchRouteElevationsThread env never rmos) = 0)"
proof -
  let ?r = "fetchRouteElevationsThread env never rmos"
  let ?L = "elevationLegs ?r"
  note inv = fetch_inv [OF never_flag, of env rmos]
  have a: "rmos \<noteq> [] \<longrightarrow> int (length ?L) = int (length rmos) - 1"
    using inv(3) by (cases rmos) auto
  have b: "\<forall>lg \<in> set ?L. distances lg \<noteq> []"
    using fetch_leg_nonempty(2) [of _ env rmos] by (auto simp: in_set_conv_nth)
  from inv(1) have hd: "\<forall>k < length ?L. hd (distances (?L ! k)) = endDistance (take k ?L)"
    and td: "totalDistance ?r = endDistance ?L"
    and mr: "maxRouteElevation ?r = fold max (map maxElevation ?L) 0"
    and nn: "\<forall>k < length ?L. 0 \<le> maxElevation (?L ! k)"
    by (simp_all add: profileInv_def legBuilt_def)
  have c: "totalDistance ?r = (\<Sum>lg\<leftarrow>?L. last (distances lg) - hd (distances lg))"
    using deltas_telescope [OF hd] td by simp
  have d: "?L \<noteq> [] \<longrightarrow> maxRouteElevation ?r = Max (maxElevation ` set ?L)"
  proof
    assume ne: "?L \<noteq> []"
    have "\<forall>x \<in> set (map maxElevation ?L). 0 \<le> x"
      using nn by (auto simp: in_set_conv_nth)
    with ne fold_max_Max [of "map maxElevation ?L"] mr
    show "maxRouteElevation ?r = Max (maxElevation ` set ?L)" by simp
  qed
  have e: "length rmos \<le> 1 \<longrightarrow> ?L = [] \<and> totalDistance ?r = 0 \<and>
      maxRouteElevation ?r = 0 \<and> totalNumPoints ?r = 0"
    by (simp add: fetchRouteElevationsThread_def legLoop.simps)
  from a b c d e show ?thesis by blast
qed

theorem profile_totals_witness:
  "exRoute \<noteq> [] \<and>
   elevationLegs (fetchRouteElevationsThread exEnv never exRoute) \<noteq> [] \<and>
   int (length (elevationLegs (fetchRouteElevationsThread exEnv never exRoute))) = 4 \<and>
   totalDistance (fetchRouteElevationsThread exEnv never exRoute) = 40 \<and>
   maxRouteElevation (fetchRouteElevationsThread exEnv never exRoute) = 324 \<and>
   length [wp ''A'' 0] \<le> 1 \<and>
   elevationLegs (fetchRouteElevationsThread exEnv never [wp ''A'' 0]) = [] \<and>
   totalDistance (fetchRouteElevationsThread exEnv never [wp ''A'' 0]) = 0"
proof -
  have ne: "exRoute \<noteq> []" by (simp add: exRoute_def)
  have len: "int (length exRoute) - 1 = 4" by (simp add: exRoute_def)
  have legs: "elevationLegs (fetchRouteElevationsThread exEnv never exRoute) =
      elevationLegs exProfile"
    by (simp add: exProfile_run)
  have sum: "(\<Sum>lg\<leftarrow>elevationLegs exProfile. last (distances lg) - hd (distances lg)) = 40"
    by (simp add: exProfile_def)
  have mx: "Max (maxElevation ` set (elevationLegs exProfile)) = 324"
    by (simp add: exProfile_def)
  have lne: "elevationLegs exProfile \<noteq> []" by (simp add: exProfile_def)
  from profile_totals [of exRoute exEnv] profile_totals [of "[wp ''A'' 0]" exEnv]
  show ?thesis
    using ne len sum mx lne by (simp add: legs)
qed

subsection \<open>C9: the fallback for a segment without samples\<close>

text \<open>
  C9: when the elevation model returns no sample for segment \<open>k\<close>, the segment's samples
  are its two end points at altitude 0, and the run, when not cancelled, builds leg \<open>k\<close>
  from exactly these two: no error value exists on this path.
\<close>

theorem empty_samples_fallback:
  assumes "Suc k < length rmos"
    and "heightProfile env (lonX (position (rmos ! k))) (latY (position (rmos ! k)))
           (lonX (position (rmos ! Suc k))) (latY (position (rmos ! Suc k))) = []"
  shows "legSamples env (rmos ! k) (rmos ! Suc k) =
      [\<lparr>longitude = lonX (position (rmos ! k)), latitude = latY (position (rmos ! k)),
         coordAltitude = 0\<rparr>,
       \<lparr>longitude = lonX (position (rmos ! Suc k)), latitude = latY (position (rmos ! Suc k)),
         coordAltitude = 0\<rparr>] \<and>
    k < length (elevationLegs (fetchRouteElevationsThread env never rmos)) \<and>
    elevation (elevationLegs (fetchRouteElevationsThread env never rmos) ! k) =
      [\<lparr>lonX = lonX (position (rmos ! k)), latY = latY (position (rmos ! k)),
         altitude = meterToFeet env 0\<rparr>,
       \<lparr>lonX = lonX (position (rmos ! Suc k)), latY = latY (position (rmos ! Suc k)),
         altitude = meterToFeet env 0\<rparr>]"
proof -
  let ?L = "elevationLegs (fetchRouteElevationsThread env never rmos)"
  have s: "legSamples env (rmos ! k) (rmos ! Suc k) =
      [\<lparr>longitude = lonX (position (rmos ! k)), latitude = latY (position (rmos ! k)),
         coordAltitude = 0\<rparr>,
       \<lparr>longitude = lonX (position (rmos ! Suc k)), latitude = latY (position (rmos ! Suc k)),
         coordAltitude = 0\<rparr>]"
    using assms(2) by (simp add: legSamples_def)
  from assms(1) have k: "k < length ?L"
    using fetch_length by blast
  from fetch_legBuilt [OF never_flag k]
  have "elevation (?L ! k) = thinSamples (similarAltitude env k)
      (length (segmentPositions env rmos k)) 0 [] (segmentPositions env rmos k)"
    by (simp add: legBuilt_def)
  then have "elevation (?L ! k) =
      [\<lparr>lonX = lonX (position (rmos ! k)), latY = latY (position (rmos ! k)),
         altitude = meterToFeet env 0\<rparr>,
       \<lparr>lonX = lonX (position (rmos ! Suc k)), latY = latY (position (rmos ! Suc k)),
         altitude = meterToFeet env 0\<rparr>]"
    by (simp add: segmentPositions_def s samplePos_def)
  with s k show ?thesis by simp
qed

theorem empty_samples_fallback_witness:
  "Suc 0 < length westRoute \<and>
   heightProfile exEnv (lonX (position (westRoute ! 0))) (latY (position (westRoute ! 0)))
     (lonX (position (westRoute ! Suc 0))) (latY (position (westRoute ! Suc 0))) = [] \<and>
   elevation (elevationLegs (fetchRouteElevationsThread exEnv never westRoute) ! 0) =
     [\<lparr>lonX = - 10, latY = 0, altitude = 0\<rparr>, \<lparr>lonX = 0, latY = 0, altitude = 0\<rparr>]"
proof -
  have h1: "Suc 0 < length westRoute" by (simp add: westRoute_def)
  have h2: "heightProfile exEnv (lonX (position (westRoute ! 0))) (latY (position (westRoute ! 0)))
     (lonX (position (westRoute ! Suc 0))) (latY (position (westRoute ! Suc 0))) = []"
    by (simp add: westRoute_def wp_def exEnv_def)
  from empty_samples_fallback [OF h1 h2] h1 h2 show ?thesis
    by (simp add: westRoute_def wp_def exEnv_def)
qed

subsection \<open>C10: distances continue across legs\<close>

text \<open>
  C10: in a run that is not cancelled, every leg has a distance, the first distance of
  the first leg is 0, and the first distance of every later leg equals the last distance
  of the leg before it.
\<close>

theorem distances_continuous:
  "(\<forall>lg \<in> set (elevationLegs (fetchRouteElevationsThread env never rmos)). distances lg \<noteq> []) \<and>
   (elevationLegs (fetchRouteElevationsThread env never rmos) \<noteq> [] \<longrightarrow>
      hd (distances (elevationLegs (fetchRouteElevationsThread env never rmos) ! 0)) = 0) \<and>
   (\<forall>k. Suc k < length (elevationLegs (fetchRouteElevationsThread env never rmos)) \<longrightarrow>
      hd (distances (elevationLegs (fetchRouteElevationsThread env never rmos) ! Suc k)) =
      last (distances (elevationLegs (fetchRouteElevationsThread env never rmos) ! k)))"
proof -
  let ?r = "fetchRouteElevationsThread env never rmos"
  let ?L = "elevationLegs ?r"
  note inv = fetch_inv [OF never_flag, of env rmos]
  have b: "\<forall>lg \<in> set ?L. distances lg \<noteq> []"
    using fetch_leg_nonempty(2) [of _ env rmos] by (auto simp: in_set_conv_nth)
  from inv(1) have hd: "\<And>k. k < length ?L \<Longrightarrow> hd (distances (?L ! k)) = endDistance (take k ?L)"
    by (simp add: profileInv_def legBuilt_def)
  have first: "?L \<noteq> [] \<longrightarrow> hd (distances (?L ! 0)) = 0"
    using hd [of 0] by (simp add: endDistance_def)
  have chain: "\<forall>k. Suc k < length ?L \<longrightarrow> hd (distances (?L ! Suc k)) = last (distances (?L ! k))"
  proof (intro allI impI)
    fix k assume k: "Suc k < length ?L"
    then have "take (Suc k) ?L = take k ?L @ [?L ! k]"
      by (simp add: take_Suc_conv_app_nth)
    then have "endDistance (take (Suc k) ?L) = last (distances (?L ! k))"
      by (simp add: endDistance_def)
    with hd [OF k] show "hd (distances (?L ! Suc k)) = last (distances (?L ! k))" by simp
  qed
  from b first chain show ?thesis by blast
qed

theorem distances_continuous_witness:
  "Suc 2 < length (elevationLegs (fetchRouteElevationsThread exEnv never exRoute)) \<and>
   hd (distances (elevationLegs (fetchRouteElevationsThread exEnv never exRoute) ! Suc 2)) = 30 \<and>
   last (distances (elevationLegs (fetchRouteElevationsThread exEnv never exRoute) ! 2)) = 30 \<and>
   hd (distances (elevationLegs (fetchRouteElevationsThread exEnv never exRoute) ! 0)) = 0"
proof -
  have legs: "elevationLegs (fetchRouteElevationsThread exEnv never exRoute) =
      elevationLegs exProfile"
    by (simp add: exProfile_run)
  have h: "Suc 2 < length (elevationLegs (fetchRouteElevationsThread exEnv never exRoute))"
    by (simp add: legs exProfile_def)
  have l: "last (distances (elevationLegs (fetchRouteElevationsThread exEnv never exRoute) ! 2)) = 30"
    by (simp add: legs exProfile_def)
  have ne: "elevationLegs (fetchRouteElevationsThread exEnv never exRoute) \<noteq> []"
    by (simp add: legs exProfile_def)
  from distances_continuous [of exEnv exRoute]
  have first: "hd (distances (elevationLegs (fetchRouteElevationsThread exEnv never exRoute) ! 0)) = 0"
    and step: "hd (distances (elevationLegs (fetchRouteElevationsThread exEnv never exRoute) ! Suc 2)) =
      last (distances (elevationLegs (fetchRouteElevationsThread exEnv never exRoute) ! 2))"
    using h ne by blast+
  from first step h l show ?thesis by simp
qed

end
